theory Spec2Isabelle
  imports Complex_Main "HOL-Library.Sublist" "HOL-Library.List_Lexorder" "HOL-Library.Char_ord"
    "HOL-Library.Code_Target_Numeral"
begin

section \<open>JavaScript values\<close>

text \<open>
  The controller and the chat endpoint are JavaScript. A value that the code inspects with
  \<^verbatim>\<open>!x\<close>, \<^verbatim>\<open>typeof\<close>, \<^verbatim>\<open>===\<close> or \<^verbatim>\<open>||\<close> is a \<open>jsval\<close>.
  A Number is a double: a NaN, an infinity, or a finite double held as the rational that
  is its exact value. Whatever produces a Number rounds the exact result to the nearest
  double, ties to the even significand, and overflows to an infinity (\<open>round_double\<close>
  below). The sign of zero is not represented: \<^verbatim>\<open>-0\<close> is \<open>Fin 0\<close>. A String is a list of
  UTF-16 code units, of which the model has those below 256, written as characters: the
  character \<open>CHR 0xA0\<close> is the no-break space U+00A0 and \<open>CHR 0xC9\<close> is U+00C9. A Date
  object carries its time value in milliseconds, \<open>None\<close> for an Invalid Date.
\<close>

datatype jsnum = NaN | NegInf | Fin rat | PosInf

datatype jsval =
    Undefined
  | Null
  | Bool bool
  | Num jsnum
  | Str string
  | DateObj "int option"

text \<open>ToBoolean: what \<^verbatim>\<open>!x\<close>, \<^verbatim>\<open>x || y\<close> and \<^verbatim>\<open>x && y\<close> test.\<close>

fun truthy :: "jsval \<Rightarrow> bool" where
  "truthy Undefined = False"
| "truthy Null = False"
| "truthy (Bool b) = b"
| "truthy (Num NaN) = False"
| "truthy (Num (Fin r)) = (r \<noteq> 0)"
| "truthy (Num NegInf) = True"
| "truthy (Num PosInf) = True"
| "truthy (Str s) = (s \<noteq> [])"
| "truthy (DateObj t) = True"

text \<open>\<^verbatim>\<open>x || y\<close>\<close>

definition js_or :: "jsval \<Rightarrow> jsval \<Rightarrow> jsval" where
  "js_or x y = (if truthy x then x else y)"

text \<open>
  \<^verbatim>\<open>x === y\<close>. NaN equals nothing; two Date objects are equal only when they are the same
  object, which no comparison of the code can meet (one side is a freshly read row field).
\<close>

fun strict_eq :: "jsval \<Rightarrow> jsval \<Rightarrow> bool" where
  "strict_eq Undefined Undefined = True"
| "strict_eq Null Null = True"
| "strict_eq (Bool a) (Bool b) = (a = b)"
| "strict_eq (Num NaN) (Num b) = False"
| "strict_eq (Num a) (Num NaN) = False"
| "strict_eq (Num a) (Num b) = (a = b)"
| "strict_eq (Str a) (Str b) = (a = b)"
| "strict_eq a b = False"

text \<open>\<^verbatim>\<open>typeof x === "string"\<close>\<close>

fun is_string :: "jsval \<Rightarrow> bool" where
  "is_string (Str s) = True"
| "is_string v = False"


subsection \<open>Numbers\<close>

text \<open>
  The position of the leading bit of a positive natural number, and of a positive rational:
  \<open>floor_log2 a\<close> is the integer \<open>e\<close> with \<open>2^e \<le> a < 2^(e+1)\<close>.
\<close>

fun log2_nat :: "nat \<Rightarrow> nat" where
  "log2_nat n = (if n < 2 then 0 else Suc (log2_nat (n div 2)))"

declare log2_nat.simps [simp del]

definition floor_log2 :: "rat \<Rightarrow> int" where
  "floor_log2 a =
     (if 1 \<le> a then int (log2_nat (nat \<lfloor>a\<rfloor>))
      else (let c = log2_nat (nat \<lfloor>1 / a\<rfloor>)
            in if a * 2 ^ c = 1 then - int c else - int c - 1))"

text \<open>The nearest integer, the even one of the two at a tie.\<close>

definition round_half_even :: "rat \<Rightarrow> int" where
  "round_half_even t =
     (let f = \<lfloor>t\<rfloor>; r = t - of_int f
      in if r < 1 / 2 then f else if 1 / 2 < r then f + 1
         else if even f then f else f + 1)"

text \<open>
  The double nearest to a rational. A double is a significand of at most 53 bits times a
  power of two that is at least \<open>2^(-1074)\<close>; the unit in the last place of a value whose
  leading bit is at \<open>e\<close> is \<open>2^(e - 52)\<close>, and \<open>2^(-1074)\<close> for the subnormal values. The
  value is rounded to a multiple of that unit; a result of \<open>2^1024\<close> or more is an
  infinity.
\<close>

definition round_double :: "rat \<Rightarrow> jsnum" where
  "round_double x =
     (if x = 0 then Fin 0
      else
        (let a = \<bar>x\<bar>;
             e = floor_log2 a;
             q = max (e - 52) (- 1074);
             m = round_half_even (a / 2 powi q);
             v = of_int m * 2 powi q
         in if 2 ^ 1024 \<le> v then (if x < 0 then NegInf else PosInf)
            else Fin (if x < 0 then - v else v)))"

text \<open>The rationals that are doubles.\<close>

definition is_double :: "rat \<Rightarrow> bool" where
  "is_double r = (round_double r = Fin r)"

text \<open>
  Addition and unary minus of Numbers: the exact sum of two finite doubles is rounded, the
  negation of a double is exact.
\<close>

fun js_add :: "jsnum \<Rightarrow> jsnum \<Rightarrow> jsnum" where
  "js_add (Fin a) (Fin b) = round_double (a + b)"
| "js_add NaN y = NaN"
| "js_add x NaN = NaN"
| "js_add PosInf NegInf = NaN"
| "js_add NegInf PosInf = NaN"
| "js_add PosInf y = PosInf"
| "js_add x PosInf = PosInf"
| "js_add NegInf y = NegInf"
| "js_add x NegInf = NegInf"

fun js_neg :: "jsnum \<Rightarrow> jsnum" where
  "js_neg (Fin a) = Fin (- a)"
| "js_neg NaN = NaN"
| "js_neg PosInf = NegInf"
| "js_neg NegInf = PosInf"

text \<open>
  The Number in a field that the code has itself set to a Number (the \<open>amount\<close> of a
  normalized transaction); any other value would convert to a Number first, and is NaN here.
\<close>

fun number_of :: "jsval \<Rightarrow> jsnum" where
  "number_of (Num n) = n"
| "number_of v = NaN"

subsection \<open>Strings\<close>

text \<open>The decimal digits of a natural number, as Number::toString prints a small integer.\<close>

fun nat_to_string :: "nat \<Rightarrow> string" where
  "nat_to_string n =
     (if n < 10 then [''0123456789'' ! n]
      else nat_to_string (n div 10) @ [''0123456789'' ! (n mod 10)])"

declare nat_to_string.simps [simp del]

definition is_digit :: "char \<Rightarrow> bool" where
  "is_digit c = (c \<in> set ''0123456789'')"

definition digit_val :: "char \<Rightarrow> nat" where
  "digit_val c = length (takeWhile (\<lambda>d. d \<noteq> c) ''0123456789'')"

definition digits_val :: "string \<Rightarrow> nat" where
  "digits_val ds = foldl (\<lambda>a c. 10 * a + digit_val c) 0 ds"

text \<open>
  White space and line terminators among the code units below 256: tab, line feed, vertical
  tab, form feed, carriage return, space and the no-break space U+00A0.
\<close>

definition is_ws :: "char \<Rightarrow> bool" where
  "is_ws c =
     (c \<in> set [CHR 0x09, CHR 0x0A, CHR 0x0B, CHR 0x0C, CHR 0x0D, CHR 0x20, CHR 0xA0])"

text \<open>\<^verbatim>\<open>s.trim()\<close>\<close>

definition trim :: "string \<Rightarrow> string" where
  "trim s = rev (dropWhile is_ws (rev (dropWhile is_ws s)))"

text \<open>
  \<^verbatim>\<open>s.toLowerCase()\<close> on a string. Among the code units below 256 the upper-case letters
  are A to Z and U+00C0 to U+00DE without the multiplication sign U+00D7; each maps to the
  code unit 32 above it, and every other code unit to itself.
\<close>

definition upper_letters :: string where
  "upper_letters =
     ''ABCDEFGHIJKLMNOPQRSTUVWXYZ'' @
     [CHR 0xC0, CHR 0xC1, CHR 0xC2, CHR 0xC3, CHR 0xC4, CHR 0xC5, CHR 0xC6, CHR 0xC7,
      CHR 0xC8, CHR 0xC9, CHR 0xCA, CHR 0xCB, CHR 0xCC, CHR 0xCD, CHR 0xCE, CHR 0xCF,
      CHR 0xD0, CHR 0xD1, CHR 0xD2, CHR 0xD3, CHR 0xD4, CHR 0xD5, CHR 0xD6,
      CHR 0xD8, CHR 0xD9, CHR 0xDA, CHR 0xDB, CHR 0xDC, CHR 0xDD, CHR 0xDE]"

definition lower_letters :: string where
  "lower_letters =
     ''abcdefghijklmnopqrstuvwxyz'' @
     [CHR 0xE0, CHR 0xE1, CHR 0xE2, CHR 0xE3, CHR 0xE4, CHR 0xE5, CHR 0xE6, CHR 0xE7,
      CHR 0xE8, CHR 0xE9, CHR 0xEA, CHR 0xEB, CHR 0xEC, CHR 0xED, CHR 0xEE, CHR 0xEF,
      CHR 0xF0, CHR 0xF1, CHR 0xF2, CHR 0xF3, CHR 0xF4, CHR 0xF5, CHR 0xF6,
      CHR 0xF8, CHR 0xF9, CHR 0xFA, CHR 0xFB, CHR 0xFC, CHR 0xFD, CHR 0xFE]"

definition lower_char :: "char \<Rightarrow> char" where
  "lower_char c =
     (case map_of (zip upper_letters lower_letters) c of
        Some d \<Rightarrow> d
      | None \<Rightarrow> c)"

definition lower_string :: "string \<Rightarrow> string" where
  "lower_string s = map lower_char s"

text \<open>\<^verbatim>\<open>s.includes(sub)\<close>\<close>

fun str_includes :: "string \<Rightarrow> string \<Rightarrow> bool" where
  "str_includes [] sub = (sub = [])"
| "str_includes (c # cs) sub = (prefix sub (c # cs) \<or> str_includes cs sub)"

text \<open>\<^verbatim>\<open>s.split("T")[0]\<close>: the part before the first \<^verbatim>\<open>T\<close>.\<close>

definition split_T_first :: "string \<Rightarrow> string" where
  "split_T_first s = takeWhile (\<lambda>c. c \<noteq> CHR ''T'') s"

subsection \<open>parseFloat\<close>

text \<open>An optional sign: whether it is a minus, and the rest.\<close>

fun take_sign :: "string \<Rightarrow> bool \<times> string" where
  "take_sign [] = (False, [])"
| "take_sign (c # cs) =
     (if c = CHR ''-'' then (True, cs) else if c = CHR ''+'' then (False, cs)
      else (False, c # cs))"

text \<open>
  The exponent part at the head of a string: \<^verbatim>\<open>e\<close> or \<^verbatim>\<open>E\<close>, an optional sign and at least
  one digit; 0 when there is none.
\<close>

fun exponent_of :: "string \<Rightarrow> int" where
  "exponent_of [] = 0"
| "exponent_of (c # cs) =
     (if c = CHR ''e'' \<or> c = CHR ''E'' then
        (let (neg, r) = take_sign cs; ds = takeWhile is_digit r in
         if ds = [] then 0
         else if neg then - int (digits_val ds) else int (digits_val ds))
      else 0)"

text \<open>
  The decimal literal at the head of a string, after leading white space: none, a signed
  \<^verbatim>\<open>Infinity\<close> (with whether it is negative), or a sign, digits, an optional fraction and
  an optional exponent, with the exact value that this text denotes.
\<close>

datatype literal = NoLiteral | InfinityLiteral bool | DecimalLiteral rat

definition literal_value :: "string \<Rightarrow> literal" where
  "literal_value s =
     (let (neg, s2) = take_sign (dropWhile is_ws s) in
      if prefix ''Infinity'' s2 then InfinityLiteral neg
      else
        (let ip = takeWhile is_digit s2;
             r1 = dropWhile is_digit s2;
             (fp, r2) = (case r1 of
                           [] \<Rightarrow> ([], r1)
                         | c # r \<Rightarrow> if c = CHR ''.''
                                    then (takeWhile is_digit r, dropWhile is_digit r)
                                    else ([], r1))
         in if ip = [] \<and> fp = [] then NoLiteral
            else
              (let e = exponent_of r2;
                   m = of_nat (digits_val ip) + of_nat (digits_val fp) / 10 ^ length fp;
                   v = (if 0 \<le> e then m * 10 ^ nat e else m / 10 ^ nat (- e))
               in DecimalLiteral (if neg then - v else v))))"

text \<open>
  \<^verbatim>\<open>parseFloat\<close> of a string: NaN when no literal starts it, an infinity, or the double
  nearest to the value of the literal.
\<close>

definition parseFloat_string :: "string \<Rightarrow> jsnum" where
  "parseFloat_string s =
     (case literal_value s of
        NoLiteral \<Rightarrow> NaN
      | InfinityLiteral neg \<Rightarrow> (if neg then NegInf else PosInf)
      | DecimalLiteral v \<Rightarrow> round_double v)"

text \<open>
  \<^verbatim>\<open>parseFloat(x)\<close> converts its argument to a string first. A Number prints and reads
  back as itself, which for a double is what \<open>round_double\<close> gives; \<^verbatim>\<open>undefined\<close>,
  \<^verbatim>\<open>null\<close>, a Boolean and a Date print as text that starts no decimal literal.
\<close>

fun parseFloat :: "jsval \<Rightarrow> jsnum" where
  "parseFloat (Str s) = parseFloat_string s"
| "parseFloat (Num (Fin r)) = round_double r"
| "parseFloat (Num n) = n"
| "parseFloat v = NaN"

subsection \<open>What the host provides\<close>

text \<open>
  The built-in operations whose result the code does not determine are taken from the
  host: the printing of a Number as Number::toString does it, the printing of a Date, the
  parsing of a date string, the ISO form of a valid time value, and the local-time
  \<^verbatim>\<open>setHours(0, 0, 0, 0)\<close> and \<^verbatim>\<open>setHours(23, 59, 59, 999)\<close> of a valid time value.
\<close>

record host =
  numberToString :: "jsnum \<Rightarrow> string"
  dateToString :: "int option \<Rightarrow> string"
  dateParse :: "string \<Rightarrow> int option"
  toISOString :: "int \<Rightarrow> string"
  setHoursStart :: "int \<Rightarrow> int"
  setHoursEnd :: "int \<Rightarrow> int"

text \<open>The string a value becomes inside a template literal.\<close>

fun to_string :: "host \<Rightarrow> jsval \<Rightarrow> string" where
  "to_string h (Str s) = s"
| "to_string h Undefined = ''undefined''"
| "to_string h Null = ''null''"
| "to_string h (Bool b) = (if b then ''true'' else ''false'')"
| "to_string h (Num n) = numberToString h n"
| "to_string h (DateObj t) = dateToString h t"

text \<open>
  \<^verbatim>\<open>x.toFixed(2)\<close>. A value that is not finite prints as Number::toString prints it; a
  magnitude of \<open>10^21\<close> or more prints as the host prints it, after the sign; any other value
  is rounded to the nearest hundredth, the larger one at a tie, and printed with at least one
  digit before the point and two after it.
\<close>

definition toFixed2 :: "host \<Rightarrow> jsnum \<Rightarrow> string" where
  "toFixed2 h x =
     (case x of
        NaN \<Rightarrow> ''NaN''
      | PosInf \<Rightarrow> ''Infinity''
      | NegInf \<Rightarrow> ''-Infinity''
      | Fin r \<Rightarrow>
          (let s = (if r < 0 then ''-'' else []);
               a = \<bar>r\<bar>
           in if 10 ^ 21 \<le> a then s @ numberToString h (Fin a)
              else
                (let n = nat \<lfloor>a * 100 + 1 / 2\<rfloor>;
                     m = nat_to_string n;
                     m' = (if length m \<le> 2 then replicate (3 - length m) (CHR ''0'') @ m else m)
                 in s @ take (length m' - 2) m' @ ''.'' @ drop (length m' - 2) m')))"

text \<open>
  \<^verbatim>\<open>
  function formatCurrency(amount) {
    const parsedAmount = parseFloat(amount);
    return isNaN(parsedAmount) ? "0.00" : parsedAmount.toFixed(2);
  }
  \<close>
\<close>

definition formatCurrency :: "host \<Rightarrow> jsval \<Rightarrow> string" where
  "formatCurrency h amount =
     (let parsedAmount = parseFloat amount in
      if parsedAmount = NaN then ''0.00'' else toFixed2 h parsedAmount)"

subsection \<open>Dates\<close>

text \<open>
  The time value of \<^verbatim>\<open>new Date(v)\<close>: a Date is copied, a string is parsed by the host, a
  Number is clipped to the range of time values and truncated; \<open>None\<close> is the Invalid Date.
\<close>

fun new_Date :: "host \<Rightarrow> jsval \<Rightarrow> int option" where
  "new_Date h (DateObj t) = t"
| "new_Date h (Str s) = dateParse h s"
| "new_Date h (Num (Fin r)) =
     (if \<bar>r\<bar> \<le> 8640000000000000 then Some (if 0 \<le> r then \<lfloor>r\<rfloor> else \<lceil>r\<rceil>) else None)"
| "new_Date h (Num n) = None"
| "new_Date h Undefined = None"
| "new_Date h Null = Some 0"
| "new_Date h (Bool b) = Some (if b then 1 else 0)"

text \<open>\<^verbatim>\<open>a < b\<close> on two Dates: false when either is invalid.\<close>

fun date_less :: "int option \<Rightarrow> int option \<Rightarrow> bool" where
  "date_less (Some a) (Some b) = (a < b)"
| "date_less a b = False"

text \<open>
  \<^verbatim>\<open>
  function formatDate(date) {
    if (!date) return "";
    try { return new Date(date).toISOString().split("T")[0]; }
    catch (err) { return ""; }
  }
  \<close>
  \<^verbatim>\<open>toISOString\<close> throws a RangeError on an Invalid Date, which the \<^verbatim>\<open>catch\<close> turns
  into the empty string.
\<close>

definition formatDate :: "host \<Rightarrow> jsval \<Rightarrow> string" where
  "formatDate h date =
     (if \<not> truthy date then []
      else (case new_Date h date of
              None \<Rightarrow> []
            | Some t \<Rightarrow> split_T_first (toISOString h t)))"

section \<open>Formatting utilities of the controller\<close>

text \<open>\<^verbatim>\<open>s.slice(-4)\<close>: from \<open>max (length s - 4) 0\<close> to the end.\<close>

definition slice_last4 :: "string \<Rightarrow> string" where
  "slice_last4 s = drop (length s - 4) s"

text \<open>
  \<^verbatim>\<open>
  function getLastFour(accountNumber) {
    if (!accountNumber || typeof accountNumber !== "string") return "****";
    return accountNumber.slice(-4);
  }
  \<close>
\<close>

fun getLastFour :: "jsval \<Rightarrow> string" where
  "getLastFour (Str s) = (if \<not> truthy (Str s) \<or> \<not> is_string (Str s) then ''****'' else slice_last4 s)"
| "getLastFour v = ''****''"

section \<open>Connection probe with retries\<close>

record retry_options =
  maxRetries :: nat
  retryDelay :: nat
  timeout :: nat

definition retryOptions :: retry_options where
  "retryOptions = \<lparr>maxRetries = 3, retryDelay = 1000, timeout = 5000\<rparr>"

text \<open>
  One pass through the body of the \<^verbatim>\<open>try\<close> of \<open>testConnection\<close>: the pool rejects the
  connection, the timer of \<open>timeout\<close> milliseconds wins the race, the connection is made
  and \<^verbatim>\<open>SELECT 1\<close> fails (the client is released and the error rethrown), or the query
  succeeds. The argument is the message of the error.
\<close>

datatype probe_outcome =
    ConnectRejected string
  | ConnectTimeout
  | QueryRejected string
  | ProbeOk

text \<open>What the probe did, in order: an attempt, or a sleep of so many milliseconds.\<close>

datatype probe_event = Attempt | Sleep nat

record probe_run =
  returned :: bool
  events :: "probe_event list"

text \<open>
  \<^verbatim>\<open>
  let attempts = 0;
  while (attempts < retryOptions.maxRetries) {
    try { ... return true; }
    catch (err) {
      attempts++;
      if (attempts < retryOptions.maxRetries) {
        const delay = retryOptions.retryDelay * attempts;
        await new Promise((resolve) => setTimeout(resolve, delay));
      }
    }
  }
  return false;
  \<close>
  The pool is the function that gives the outcome of the attempt made when the counter
  \<open>attempts\<close> has a given value. Every outcome but \<open>ProbeOk\<close> reaches the \<^verbatim>\<open>catch\<close>.
\<close>

function testConnection_loop ::
  "(nat \<Rightarrow> probe_outcome) \<Rightarrow> nat \<Rightarrow> probe_event list \<Rightarrow> probe_run" where
  "testConnection_loop pool attempts evs =
     (if attempts < maxRetries retryOptions then
        (case pool attempts of
           ProbeOk \<Rightarrow> \<lparr>returned = True, events = evs @ [Attempt]\<rparr>
         | _ \<Rightarrow>
           (let attempts' = attempts + 1 in
            if attempts' < maxRetries retryOptions
            then testConnection_loop pool attempts'
                   (evs @ [Attempt, Sleep (retryDelay retryOptions * attempts')])
            else testConnection_loop pool attempts' (evs @ [Attempt])))
      else \<lparr>returned = False, events = evs\<rparr>)"
  by pat_completeness auto
termination
  by (relation "measure (\<lambda>(pool, attempts, evs). maxRetries retryOptions - attempts)") auto

declare testConnection_loop.simps [simp del]

definition testConnection :: "(nat \<Rightarrow> probe_outcome) \<Rightarrow> probe_run" where
  "testConnection pool = testConnection_loop pool 0 []"

text \<open>The attempts of a run, and the sleeps of a run in order.\<close>

definition attempts_made :: "probe_run \<Rightarrow> nat" where
  "attempts_made r = length (filter (\<lambda>e. e = Attempt) (events r))"

fun sleeps :: "probe_event list \<Rightarrow> nat list" where
  "sleeps [] = []"
| "sleeps (Attempt # es) = sleeps es"
| "sleeps (Sleep d # es) = d # sleeps es"

text \<open>The attempts that came before the \<open>k\<close>-th sleep (counted from 1) of an event list.\<close>

fun attempts_before_sleep :: "probe_event list \<Rightarrow> nat \<Rightarrow> nat" where
  "attempts_before_sleep [] k = 0"
| "attempts_before_sleep (Attempt # es) k = Suc (attempts_before_sleep es k)"
| "attempts_before_sleep (Sleep d # es) k =
     (if k \<le> 1 then 0 else attempts_before_sleep es (k - 1))"

section \<open>Fetching and normalizing the transactions of an account\<close>

text \<open>A thrown value: an \<^verbatim>\<open>Error\<close> with its message, or the TypeError of a call on a
  value that has no such method.\<close>

datatype error = Error string | TypeError

text \<open>A row of the ledger query and a row of the identity query, as the driver returns them.\<close>

record ledger_row =
  timestamp :: jsval
  amount :: jsval
  from_acct :: jsval
  to_acct :: jsval

record user_row =
  firstname :: jsval
  lastname :: jsval

text \<open>An entry of \<^verbatim>\<open>Promise.allSettled\<close>: the value, or the message of the reason.\<close>

datatype 'a settled = Fulfilled 'a | Rejected string

text \<open>
  The two stores during one request: how the probes of each pool go, what each query
  settles to for a given parameter, and what \<^verbatim>\<open>new Date().toISOString()\<close> gives.
\<close>

record stores =
  ledgerProbe :: "nat \<Rightarrow> probe_outcome"
  accountsProbe :: "nat \<Rightarrow> probe_outcome"
  ledgerQuery :: "jsval \<Rightarrow> ledger_row list settled"
  accountsQuery :: "jsval \<Rightarrow> user_row list settled"
  now :: string

text \<open>
  A transaction object as the chat endpoint reads it. A property that an object does not
  have reads as \<^verbatim>\<open>undefined\<close>. The controller sets the first eleven fields; the endpoint
  also reads \<open>category\<close>, \<open>transactionType\<close> and \<open>description\<close>.
\<close>

record tx =
  transactionDate :: jsval
  formattedDate :: jsval
  amount :: jsval
  fromAccount :: jsval
  toAccount :: jsval
  type :: jsval
  fromAccountLastFour :: jsval
  toAccountLastFour :: jsval
  formattedAmount :: jsval
  balance :: jsval
  formattedBalance :: jsval
  category :: jsval
  transactionType :: jsval
  description :: jsval

record response =
  accountOwner :: string
  accountNumber :: string
  transactions :: "tx list"
  timestamp :: string

text \<open>
  The callback of \<^verbatim>\<open>transactions.map\<close>:
  \<^verbatim>\<open>
  const amount = parseFloat(row.amount || 0);
  const isDebit = row.from_acct === accountId;
  return {
    transactionDate: row.timestamp,
    formattedDate: formatDate(row.timestamp),
    amount: isNaN(amount) ? 0 : amount,
    fromAccount: row.from_acct || "",
    toAccount: row.to_acct || "",
    type: isDebit ? "Debit" : "Credit",
    fromAccountLastFour: getLastFour(row.from_acct),
    toAccountLastFour: getLastFour(row.to_acct),
    formattedAmount: formatCurrency(amount),
  };
  \<close>
\<close>

definition processRow :: "host \<Rightarrow> jsval \<Rightarrow> ledger_row \<Rightarrow> tx" where
  "processRow h accountId row =
     (let amount = parseFloat (js_or (ledger_row.amount row) (Num (Fin 0)));
          isDebit = strict_eq (from_acct row) accountId
      in \<lparr>transactionDate = ledger_row.timestamp row,
          formattedDate = Str (formatDate h (ledger_row.timestamp row)),
          amount = Num (if amount = NaN then Fin 0 else amount),
          fromAccount = js_or (from_acct row) (Str []),
          toAccount = js_or (to_acct row) (Str []),
          type = Str (if isDebit then ''Debit'' else ''Credit''),
          fromAccountLastFour = Str (getLastFour (from_acct row)),
          toAccountLastFour = Str (getLastFour (to_acct row)),
          formattedAmount = Str (formatCurrency h (Num amount)),
          balance = Undefined,
          formattedBalance = Undefined,
          category = Undefined,
          transactionType = Undefined,
          description = Undefined\<rparr>)"

text \<open>
  The \<^verbatim>\<open>forEach\<close> that assigns the running balance, with the value of \<open>balance\<close> before
  the first element as an argument:
  \<^verbatim>\<open>
  let balance = 0;
  processedTransactions.forEach((transaction) => {
    const isDebit = transaction.fromAccount === accountId;
    balance += isDebit ? -transaction.amount : transaction.amount;
    transaction.balance = balance;
    transaction.formattedBalance = formatCurrency(balance);
  });
  \<close>
\<close>

fun assignBalance :: "host \<Rightarrow> jsval \<Rightarrow> jsnum \<Rightarrow> tx list \<Rightarrow> tx list" where
  "assignBalance h accountId bal [] = []"
| "assignBalance h accountId bal (transaction # rest) =
     (let isDebit = strict_eq (fromAccount transaction) accountId;
          bal' = js_add bal (if isDebit then js_neg (number_of (tx.amount transaction))
                             else number_of (tx.amount transaction))
      in transaction\<lparr>balance := Num bal', formattedBalance := Str (formatCurrency h (Num bal'))\<rparr>
         # assignBalance h accountId bal' rest)"

text \<open>\<^verbatim>\<open>`${userData.firstname} ${userData.lastname}`.trim() || "Unknown"\<close>\<close>

definition ownerName :: "host \<Rightarrow> user_row \<Rightarrow> string" where
  "ownerName h userData =
     (let n = trim (to_string h (firstname userData) @ '' '' @ to_string h (lastname userData))
      in if n = [] then ''Unknown'' else n)"

text \<open>
  The body of the \<^verbatim>\<open>try\<close> of \<open>getTransactionData\<close>, given whether the probe of the
  accounts pool succeeded: the two queries settle, a rejected ledger query is thrown, a
  rejected or empty identity query leaves the empty names, no rows give the early response,
  and otherwise the rows are mapped and the balance assigned. \<open>Inl\<close> carries the message
  of the \<^verbatim>\<open>Error\<close> thrown, the only thing this block throws.
\<close>

definition getTransactionData_try ::
  "host \<Rightarrow> stores \<Rightarrow> bool \<Rightarrow> jsval \<Rightarrow> string + response" where
  "getTransactionData_try h st accountsConnected accountId =
     (let transactionResult = ledgerQuery st accountId;
          userResult = (if accountsConnected then accountsQuery st accountId
                        else Rejected ''Accounts database not available'')
      in case transactionResult of
           Rejected m \<Rightarrow> Inl (''Transaction query failed: '' @ m)
         | Fulfilled rows \<Rightarrow>
            (let userData = (case userResult of
                               Fulfilled (u # us) \<Rightarrow> u
                             | _ \<Rightarrow> \<lparr>firstname = Str [], lastname = Str []\<rparr>)
             in if rows = [] then
                  Inr \<lparr>accountOwner = ownerName h userData,
                       accountNumber = getLastFour accountId,
                       transactions = [],
                       timestamp = now st\<rparr>
                else
                  (let processedTransactions =
                         assignBalance h accountId (Fin 0) (map (processRow h accountId) rows)
                   in Inr \<lparr>accountOwner = ownerName h userData,
                           accountNumber = getLastFour accountId,
                           transactions = processedTransactions,
                           timestamp = now st\<rparr>)))"

text \<open>
  \<open>getTransactionData\<close>: the argument check and the failed ledger probe throw as they are;
  whatever the \<^verbatim>\<open>try\<close> throws is rethrown with the prefix of the \<^verbatim>\<open>catch\<close>.
\<close>

definition getTransactionData :: "host \<Rightarrow> stores \<Rightarrow> jsval \<Rightarrow> error + response" where
  "getTransactionData h st accountId =
     (if \<not> truthy accountId then Inl (Error ([CHR 0x27] @ ''accountId'' @ [CHR 0x27] @ '' is required''))
      else
        (let ledgerConnected = returned (testConnection (ledgerProbe st));
             accountsConnected = returned (testConnection (accountsProbe st))
         in if \<not> ledgerConnected then
              Inl (Error ''Database connection failed after multiple attempts. Please try again later.'')
            else
              (case getTransactionData_try h st accountsConnected accountId of
                 Inl m \<Rightarrow> Inl (Error (''Failed to retrieve transaction data: '' @ m))
               | Inr r \<Rightarrow> Inr r)))"

section \<open>Filtering and summarizing for the model\<close>

text \<open>The arguments of the function call that the model requests.\<close>

record params =
  summaryType :: jsval
  recipient :: jsval
  sender :: jsval
  startDate :: jsval
  endDate :: jsval
  category :: jsval
  transactionType :: jsval
  merchantName :: jsval

text \<open>The first argument of \<open>filterTransactions\<close>: an array of transactions, or anything else.\<close>

datatype tx_arg = NotArray | TxArray "tx list"

text \<open>Sequencing of steps that may throw.\<close>

definition and_then :: "error + 'a \<Rightarrow> ('a \<Rightarrow> error + 'b) \<Rightarrow> error + 'b" where
  "and_then m f = (case m of Inl e \<Rightarrow> Inl e | Inr x \<Rightarrow> f x)"

text \<open>
  \<^verbatim>\<open>v.toLowerCase()\<close> on a value that passed a truthiness test: a string has the method,
  a Number, a Boolean or a Date has not, and the call throws a TypeError.
\<close>

definition toLowerCase :: "jsval \<Rightarrow> error + string" where
  "toLowerCase v = (case v of Str s \<Rightarrow> Inr (lower_string s) | _ \<Rightarrow> Inl TypeError)"

text \<open>
  The condition \<^verbatim>\<open>p && f && f.toLowerCase() !== p.toLowerCase()\<close>, which the filter applies
  to the recipient, the sender, the category and the transaction type.
\<close>

definition differs :: "jsval \<Rightarrow> jsval \<Rightarrow> error + bool" where
  "differs p f =
     (if truthy p \<and> truthy f then
        and_then (toLowerCase f) (\<lambda>a. and_then (toLowerCase p) (\<lambda>b. Inr (a \<noteq> b)))
      else Inr False)"

text \<open>\<^verbatim>\<open>f && f.toLowerCase().includes(m)\<close>\<close>

definition field_includes :: "jsval \<Rightarrow> string \<Rightarrow> error + bool" where
  "field_includes f m =
     (if truthy f then and_then (toLowerCase f) (\<lambda>a. Inr (str_includes a m)) else Inr False)"

text \<open>
  \<^verbatim>\<open>
  if (params.merchantName) {
    const merchantNameLower = params.merchantName.toLowerCase();
    if (!((tx.fromAccount && tx.fromAccount.toLowerCase().includes(merchantNameLower)) ||
          (tx.toAccount && tx.toAccount.toLowerCase().includes(merchantNameLower))))
      return false;
  }
  \<close>
  True when the transaction is excluded.
\<close>

definition merchant_excludes :: "params \<Rightarrow> tx \<Rightarrow> error + bool" where
  "merchant_excludes p t =
     (if truthy (merchantName p) then
        and_then (toLowerCase (merchantName p)) (\<lambda>merchantNameLower.
          and_then (field_includes (fromAccount t) merchantNameLower) (\<lambda>a.
            if a then Inr False
            else and_then (field_includes (toAccount t) merchantNameLower) (\<lambda>b. Inr (\<not> b))))
      else Inr False)"

text \<open>
  \<^verbatim>\<open>
  if (params.startDate) {
    const startDate = new Date(params.startDate);
    startDate.setHours(0, 0, 0, 0);
    const txDate = new Date(tx.transactionDate);
    if (txDate < startDate) return false;
  }
  \<close>
  and the same with \<^verbatim>\<open>setHours(23, 59, 59, 999)\<close> and \<^verbatim>\<open>txDate > endDate\<close> for the end.
\<close>

definition before_start :: "host \<Rightarrow> params \<Rightarrow> tx \<Rightarrow> bool" where
  "before_start h p t =
     (if truthy (startDate p) then
        (let startDate = map_option (setHoursStart h) (new_Date h (params.startDate p));
             txDate = new_Date h (transactionDate t)
         in date_less txDate startDate)
      else False)"

definition after_end :: "host \<Rightarrow> params \<Rightarrow> tx \<Rightarrow> bool" where
  "after_end h p t =
     (if truthy (endDate p) then
        (let endDate = map_option (setHoursEnd h) (new_Date h (params.endDate p));
             txDate = new_Date h (transactionDate t)
         in date_less endDate txDate)
      else False)"

text \<open>
  The callback of \<^verbatim>\<open>transactions.filter\<close>: the checks in the order of the source, each
  returning \<^verbatim>\<open>false\<close> at once when it excludes the transaction.
\<close>

definition keepTransaction :: "host \<Rightarrow> params \<Rightarrow> tx \<Rightarrow> error + bool" where
  "keepTransaction h p t =
     and_then (differs (recipient p) (toAccount t)) (\<lambda>d1. if d1 then Inr False else
     and_then (differs (sender p) (fromAccount t)) (\<lambda>d2. if d2 then Inr False else
     and_then (merchant_excludes p t) (\<lambda>d3. if d3 then Inr False else
     if before_start h p t then Inr False else
     if after_end h p t then Inr False else
     and_then (differs (params.category p) (tx.category t)) (\<lambda>d4. if d4 then Inr False else
     and_then (differs (params.transactionType p) (tx.transactionType t)) (\<lambda>d5.
       if d5 then Inr False else Inr True)))))"

text \<open>\<^verbatim>\<open>xs.filter(f)\<close> for a callback that may throw: the first throw ends the filter.\<close>

fun filter_throwing :: "('a \<Rightarrow> error + bool) \<Rightarrow> 'a list \<Rightarrow> error + 'a list" where
  "filter_throwing f [] = Inr []"
| "filter_throwing f (x # xs) =
     and_then (f x) (\<lambda>k.
       and_then (filter_throwing f xs) (\<lambda>r. Inr (if k then x # r else r)))"

text \<open>
  \<^verbatim>\<open>
  function filterTransactions(transactions, userId, params) {
    if (!Array.isArray(transactions)) return [];
    return transactions.filter((tx) => { ... });
  }
  \<close>
\<close>

definition filterTransactions ::
  "host \<Rightarrow> tx_arg \<Rightarrow> jsval \<Rightarrow> params \<Rightarrow> error + tx list" where
  "filterTransactions h txs userId p =
     (case txs of
        NotArray \<Rightarrow> Inr []
      | TxArray ts \<Rightarrow> filter_throwing (keepTransaction h p) ts)"

text \<open>An entry of the list handed to the model.\<close>

record tx_view =
  view_date :: jsval
  view_description :: jsval
  view_amount :: jsval
  view_type :: jsval
  view_from :: jsval
  view_to :: jsval

text \<open>
  \<^verbatim>\<open>
  (tx) => ({ date: tx.formattedDate, description: tx.description, amount: tx.formattedAmount,
             type: tx.transactionType, from: tx.fromAccountLastFour, to: tx.toAccountLastFour })
  \<close>
\<close>

definition formatTx :: "tx \<Rightarrow> tx_view" where
  "formatTx t =
     \<lparr>view_date = formattedDate t,
      view_description = tx.description t,
      view_amount = formattedAmount t,
      view_type = tx.transactionType t,
      view_from = fromAccountLastFour t,
      view_to = toAccountLastFour t\<rparr>"

text \<open>
  The object that \<open>processTransactionDataForAI\<close> returns: \<open>result\<close> is a list of entries
  or a single value; \<open>unit\<close>, \<open>description\<close> and \<open>message\<close> are present or not.
\<close>

datatype result_value = Items "tx_view list" | Scalar jsval

record summary =
  result :: result_value
  unit :: "string option"
  description :: "string option"
  message :: "string option"

text \<open>
  \<^verbatim>\<open>
  let message = "No transactions found matching your criteria.";
  if (params.category) message = `No transactions found in the '${params.category}' category.`;
  if (params.merchantName) message = `No transactions found with '${params.merchantName}'.`;
  if (params.startDate && params.endDate)
    message = `No transactions found between ${params.startDate} and ${params.endDate}.`;
  \<close>
\<close>

definition emptyMessage :: "host \<Rightarrow> params \<Rightarrow> string" where
  "emptyMessage h p =
     (let message = ''No transactions found matching your criteria.'';
          message = (if truthy (params.category p)
                     then ''No transactions found in the '' @ [CHR 0x27]
                          @ to_string h (params.category p) @ [CHR 0x27] @ '' category.''
                     else message);
          message = (if truthy (merchantName p)
                     then ''No transactions found with '' @ [CHR 0x27]
                          @ to_string h (merchantName p) @ [CHR 0x27] @ ''.''
                     else message);
          message = (if truthy (startDate p) \<and> truthy (endDate p)
                     then ''No transactions found between '' @ to_string h (startDate p)
                          @ '' and '' @ to_string h (endDate p) @ ''.''
                     else message)
      in message)"

text \<open>
  The callback of the \<^verbatim>\<open>reduce\<close> of \<open>total_amount\<close>:
  \<^verbatim>\<open>
  const amount = parseFloat(tx.amount || 0);
  if (tx.fromAccount === userId) return sum + amount;
  else if (tx.toAccount === userId) return sum + amount;
  if (params.transactionType) {
    if (params.transactionType === "debit" && tx.transactionType === "debit" &&
        tx.fromAccount === userId) return sum + amount;
    if (params.transactionType === "credit" && tx.transactionType === "credit" &&
        tx.toAccount === userId) return sum + amount;
    return sum;
  }
  return sum;
  \<close>
  The accumulator \<^verbatim>\<open>sum\<close> is \<open>sum_so_far\<close>.
\<close>

definition totalStep :: "params \<Rightarrow> jsval \<Rightarrow> jsnum \<Rightarrow> tx \<Rightarrow> jsnum" where
  "totalStep p userId sum_so_far t =
     (let amount = parseFloat (js_or (tx.amount t) (Num (Fin 0))) in
      if strict_eq (fromAccount t) userId then js_add sum_so_far amount
      else if strict_eq (toAccount t) userId then js_add sum_so_far amount
      else if truthy (params.transactionType p) then
        (if strict_eq (params.transactionType p) (Str ''debit'')
            \<and> strict_eq (tx.transactionType t) (Str ''debit'')
            \<and> strict_eq (fromAccount t) userId then js_add sum_so_far amount
         else if strict_eq (params.transactionType p) (Str ''credit'')
            \<and> strict_eq (tx.transactionType t) (Str ''credit'')
            \<and> strict_eq (toAccount t) userId then js_add sum_so_far amount
         else sum_so_far)
      else sum_so_far)"

text \<open>
  \<open>processTransactionDataForAI\<close>: filter, then the empty result, the count, the total, the
  list, or the fallback list, by \<open>summaryType\<close>.
\<close>

definition processTransactionDataForAI ::
  "host \<Rightarrow> tx_arg \<Rightarrow> jsval \<Rightarrow> params \<Rightarrow> error + summary" where
  "processTransactionDataForAI h txs userId p =
     and_then (filterTransactions h txs userId p) (\<lambda>filteredTx.
       if filteredTx = [] then
         Inr \<lparr>result = Items [], unit = None, description = None,
              message = Some (emptyMessage h p)\<rparr>
       else if strict_eq (summaryType p) (Str ''count'') then
         (let count = length filteredTx in
          Inr \<lparr>result = Scalar (Num (Fin (of_nat count))), unit = Some ''count'',
               description = Some ''Number of transactions'', message = None\<rparr>)
       else if strict_eq (summaryType p) (Str ''total_amount'') then
         (let total = foldl (totalStep p userId) (Fin 0) filteredTx in
          Inr \<lparr>result = Scalar (Num total), unit = Some ''currency'',
               description = Some ''Total amount'', message = None\<rparr>)
       else if strict_eq (summaryType p) (Str ''list'') then
         (let formattedTx = map formatTx filteredTx in
          Inr \<lparr>result = Items formattedTx, unit = None, description = None,
               message = Some (''Found '' @ nat_to_string (length formattedTx)
                               @ '' matching transactions.'')\<rparr>)
       else
         (let formattedTx = map formatTx filteredTx in
          Inr \<lparr>result = Items formattedTx, unit = None, description = None,
               message = Some (''Found '' @ nat_to_string (length formattedTx)
                               @ '' matching transactions.'')\<rparr>))"

section \<open>Vocabulary of the properties\<close>

text \<open>
  The signed amount of a normalized transaction for an account: the amount negated when
  the transaction's \<open>fromAccount\<close> is the account, the amount itself otherwise.
\<close>

definition signedAmount :: "jsval \<Rightarrow> tx \<Rightarrow> jsnum" where
  "signedAmount accountId t =
     (if strict_eq (fromAccount t) accountId then js_neg (number_of (tx.amount t))
      else number_of (tx.amount t))"

text \<open>A Number of the language: a finite one is a double.\<close>

definition number_ok :: "jsnum \<Rightarrow> bool" where
  "number_ok n = (case n of Fin r \<Rightarrow> is_double r | _ \<Rightarrow> True)"

text \<open>The sum of a list of Numbers, added from the left starting at 0, rounding at each step.\<close>

definition js_sum :: "jsnum list \<Rightarrow> jsnum" where
  "js_sum xs = foldl js_add (Fin 0) xs"

subsection \<open>A concrete request\<close>

text \<open>
  A host whose printing and date functions are constant, a ledger that holds for account
  \<open>A1\<close> a credit of 50 on 2024-01-02 and a debit of 100 on 2024-01-01, most recent first,
  and an identity store that cannot be reached.
\<close>

definition example_host :: host where
  "example_host =
     \<lparr>numberToString = (\<lambda>n. ''0''),
      dateToString = (\<lambda>t. ''Invalid Date''),
      dateParse = (\<lambda>s. None),
      toISOString = (\<lambda>t. ''1970-01-01T00:00:00.000Z''),
      setHoursStart = (\<lambda>t. t),
      setHoursEnd = (\<lambda>t. t)\<rparr>"

definition example_rows :: "ledger_row list" where
  "example_rows =
     [\<lparr>ledger_row.timestamp = DateObj (Some 1704153600000), ledger_row.amount = Num (Fin 50),
       from_acct = Str ''B'', to_acct = Str ''A1''\<rparr>,
      \<lparr>ledger_row.timestamp = DateObj (Some 1704067200000), ledger_row.amount = Num (Fin 100),
       from_acct = Str ''A1'', to_acct = Str ''B''\<rparr>]"

definition example_stores :: stores where
  "example_stores =
     \<lparr>ledgerProbe = (\<lambda>n. ProbeOk),
      accountsProbe = (\<lambda>n. ConnectTimeout),
      ledgerQuery = (\<lambda>a. Fulfilled example_rows),
      accountsQuery = (\<lambda>a. Rejected ''connection refused''),
      now = ''2024-01-03T00:00:00.000Z''\<rparr>"

definition example_transactions :: "tx list" where
  "example_transactions =
     assignBalance example_host (Str ''A1'') (Fin 0)
       (map (processRow example_host (Str ''A1'')) example_rows)"

definition example_response :: response where
  "example_response =
     \<lparr>accountOwner = ''Unknown'', accountNumber = ''A1'',
      transactions = example_transactions,
      timestamp = ''2024-01-03T00:00:00.000Z''\<rparr>"

subsection \<open>Order of the ledger rows\<close>

text \<open>
  The ledger query asks for \<^verbatim>\<open>ORDER BY timestamp DESC\<close>; the driver returns each timestamp
  as a Date. A list of timestamps is descending when each one is a valid Date that is not
  earlier than any that follows it.
\<close>

definition later_or_same :: "jsval \<Rightarrow> jsval \<Rightarrow> bool" where
  "later_or_same a b =
     (case (a, b) of (DateObj (Some x), DateObj (Some y)) \<Rightarrow> y \<le> x | _ \<Rightarrow> False)"

definition timestamp_desc :: "jsval list \<Rightarrow> bool" where
  "timestamp_desc ds = sorted_wrt later_or_same ds"

subsection \<open>Vocabulary of the summaries\<close>

text \<open>
  The amount that the total reads from a transaction, and whether a transaction has the
  user as its source or its destination.
\<close>

definition parsedAmount :: "tx \<Rightarrow> jsnum" where
  "parsedAmount t = parseFloat (js_or (tx.amount t) (Num (Fin 0)))"

definition involves :: "jsval \<Rightarrow> tx \<Rightarrow> bool" where
  "involves userId t = (strict_eq (fromAccount t) userId \<or> strict_eq (toAccount t) userId)"

text \<open>
  Parameter sets for the concrete request: no filter at all; a category and a transaction
  type; a category and a merchant, asking for a count; no filter, asking for the total; no
  filter, with a summary type that the code does not know.
\<close>

definition no_filters :: params where
  "no_filters =
     \<lparr>summaryType = Undefined, recipient = Undefined, sender = Undefined,
      startDate = Undefined, endDate = Undefined, category = Undefined,
      transactionType = Undefined, merchantName = Undefined\<rparr>"

definition category_and_type :: params where
  "category_and_type =
     no_filters\<lparr>params.category := Str ''groceries'', params.transactionType := Str ''debit''\<rparr>"

definition category_and_merchant :: params where
  "category_and_merchant =
     no_filters\<lparr>summaryType := Str ''count'', params.category := Str ''food'',
                merchantName := Str ''bob''\<rparr>"

definition total_of_all :: params where
  "total_of_all = no_filters\<lparr>summaryType := Str ''total_amount''\<rparr>"

definition summary_of_all :: params where
  "summary_of_all = no_filters\<lparr>summaryType := Str ''summary''\<rparr>"

subsection \<open>Vocabulary of currency formatting\<close>

text \<open>
  A string renders exactly two decimal digits when it is an optional minus sign, at least
  one digit, a point and two digits.
\<close>

definition two_decimals :: "string \<Rightarrow> bool" where
  "two_decimals s =
     (let body = (case s of [] \<Rightarrow> [] | c # r \<Rightarrow> if c = CHR ''-'' then r else s);
          ip = takeWhile is_digit body;
          rest = dropWhile is_digit body
      in ip \<noteq> [] \<and>
         (case rest of
            [] \<Rightarrow> False
          | d # fp \<Rightarrow> d = CHR ''.'' \<and> length fp = 2 \<and> list_all is_digit fp))"

text \<open>The hundredths that \<^verbatim>\<open>toFixed(2)\<close> rounds a finite value to, with its sign.\<close>

definition hundredths :: "rat \<Rightarrow> int" where
  "hundredths r = (if r < 0 then - \<lfloor>\<bar>r\<bar> * 100 + 1 / 2\<rfloor> else \<lfloor>\<bar>r\<bar> * 100 + 1 / 2\<rfloor>)"

section \<open>Properties\<close>

subsection \<open>Rounding to a double\<close>

lemma log2_nat_bounds: "0 < n \<Longrightarrow> 2 ^ log2_nat n \<le> n \<and> n < 2 ^ (log2_nat n + 1)"
proof (induction n rule: log2_nat.induct)
  case (1 n)
  show ?case
  proof (cases "n < 2")
    case True
    with 1(2) have "n = 1" by simp
    then show ?thesis by (simp add: log2_nat.simps [of "Suc 0"])
  next
    case False
    then have "0 < n div 2" by simp
    from 1(1) [OF False this] have
      a: "2 ^ log2_nat (n div 2) \<le> n div 2" and b: "n div 2 < 2 ^ (log2_nat (n div 2) + 1)"
      by simp_all
    have l: "log2_nat n = Suc (log2_nat (n div 2))"
      using False by (simp add: log2_nat.simps [of n])
    from a have "2 * 2 ^ log2_nat (n div 2) \<le> n" by simp
    moreover from b have "n < 2 * 2 ^ (log2_nat (n div 2) + 1)" by simp
    ultimately show ?thesis by (simp add: l)
  qed
qed

lemma two_powi_le_exp:
  assumes "(2::rat) powi m \<le> 2 powi n"
  shows "m \<le> n"
proof (rule ccontr)
  assume "\<not> m \<le> n"
  then have "n < m" by simp
  then have "(2::rat) powi n < 2 powi m"
    by (rule power_int_strict_increasing) simp
  with assms show False by simp
qed

lemma two_powi_pos: "0 < (2::rat) powi n"
  by (simp add: zero_less_power_int)

lemma floor_log2_bounds:
  assumes "0 < a"
  shows "2 powi floor_log2 a \<le> a" and "a < 2 powi (floor_log2 a + 1)"
proof -
  have "2 powi floor_log2 a \<le> a \<and> a < 2 powi (floor_log2 a + 1)"
  proof (cases "1 \<le> a")
    case True
    define n where "n = nat \<lfloor>a\<rfloor>"
    define c where "c = log2_nat n"
    from True have n1: "0 < n" by (simp add: n_def)
    have fl: "floor_log2 a = int c"
      using True by (simp add: floor_log2_def n_def c_def)
    from log2_nat_bounds [OF n1] have lo: "2 ^ c \<le> n" and hi: "n < 2 ^ (c + 1)"
      by (simp_all add: c_def)
    from True have "0 \<le> \<lfloor>a\<rfloor>" by simp
    then have nf: "rat_of_nat n = of_int \<lfloor>a\<rfloor>" by (simp add: n_def)
    have na: "rat_of_nat n \<le> a" and an: "a < rat_of_nat n + 1"
      unfolding nf by linarith+
    from lo have "rat_of_nat (2 ^ c) \<le> rat_of_nat n" by (rule of_nat_mono)
    moreover have "rat_of_nat (2 ^ c) = 2 ^ c" by simp
    ultimately have l: "(2::rat) ^ c \<le> a" using na by linarith
    from hi have "n + 1 \<le> 2 ^ (c + 1)" by simp
    then have "rat_of_nat (n + 1) \<le> rat_of_nat (2 ^ (c + 1))" by (rule of_nat_mono)
    moreover have "rat_of_nat (2 ^ (c + 1)) = 2 ^ (c + 1)" by simp
    moreover have "rat_of_nat (n + 1) = rat_of_nat n + 1" by simp
    ultimately have u: "a < (2::rat) ^ (c + 1)" using an by linarith
    have "int c + 1 = int (c + 1)" by simp
    with l u show ?thesis
      unfolding fl by (simp only: power_int_of_nat)
  next
    case False
    with assms have a1: "a < 1" by simp
    define b where "b = 1 / a"
    define n where "n = nat \<lfloor>b\<rfloor>"
    define c where "c = log2_nat n"
    from a1 assms have b1: "1 < b" by (simp add: b_def)
    then have n1: "0 < n" by (simp add: n_def)
    from log2_nat_bounds [OF n1] have lo: "2 ^ c \<le> n" and hi: "n < 2 ^ (c + 1)"
      by (simp_all add: c_def)
    from b1 have "0 \<le> \<lfloor>b\<rfloor>" by simp
    then have nf: "rat_of_nat n = of_int \<lfloor>b\<rfloor>" by (simp add: n_def)
    have nb: "rat_of_nat n \<le> b" and bn: "b < rat_of_nat n + 1"
      unfolding nf by linarith+
    from lo have "rat_of_nat (2 ^ c) \<le> rat_of_nat n" by (rule of_nat_mono)
    moreover have "rat_of_nat (2 ^ c) = 2 ^ c" by simp
    ultimately have l: "(2::rat) ^ c \<le> b" using nb by linarith
    from hi have "n + 1 \<le> 2 ^ (c + 1)" by simp
    then have "rat_of_nat (n + 1) \<le> rat_of_nat (2 ^ (c + 1))" by (rule of_nat_mono)
    moreover have "rat_of_nat (2 ^ (c + 1)) = 2 ^ (c + 1)" by simp
    moreover have "rat_of_nat (n + 1) = rat_of_nat n + 1" by simp
    ultimately have u: "b < (2::rat) ^ (c + 1)" using bn by linarith
    from l assms have l': "a * 2 ^ c \<le> 1"
      by (simp add: b_def field_simps)
    from u assms have u': "1 < a * 2 ^ (c + 1)"
      by (simp add: b_def field_simps)
    have p1: "(2::rat) powi (- int c) = 1 / 2 ^ c"
      by (simp add: power_int_minus_divide)
    have p2: "(2::rat) powi (- int c - 1) = 1 / 2 ^ (c + 1)"
    proof -
      have "- int c - 1 = - int (c + 1)" by simp
      then show ?thesis by (simp only: power_int_minus_divide power_int_of_nat)
    qed
    have p3: "(2::rat) powi (- int c + 1) = 2 / 2 ^ c"
    proof -
      have "(2::rat) powi (- int c + 1) = 2 powi (- int c) * 2 powi 1"
        by (rule power_int_add) simp
      then show ?thesis by (simp add: p1)
    qed
    show ?thesis
    proof (cases "a * 2 ^ c = 1")
      case True
      then have fl: "floor_log2 a = - int c"
        using False by (simp add: floor_log2_def Let_def b_def n_def c_def)
      from True have "a = 1 / 2 ^ c" by (simp add: field_simps)
      moreover have "(1::rat) / 2 ^ c < 2 / 2 ^ c"
        by (simp add: divide_strict_right_mono)
      ultimately show ?thesis unfolding fl p1 p3 by simp
    next
      case ne: False
      then have fl: "floor_log2 a = - int c - 1"
        using False by (simp add: floor_log2_def Let_def b_def n_def c_def)
      from ne l' have "a * 2 ^ c < 1" by simp
      then have "a < 1 / 2 ^ c" by (simp add: field_simps)
      moreover from u' have "1 / 2 ^ (c + 1) \<le> a" by (simp add: field_simps)
      ultimately show ?thesis unfolding fl by (simp add: p1 p2)
    qed
  qed
  then show "2 powi floor_log2 a \<le> a" and "a < 2 powi (floor_log2 a + 1)" by simp_all
qed

lemma round_half_even_of_int: "round_half_even (of_int z) = z"
  by (simp add: round_half_even_def)

lemma round_half_even_bounds: "\<lfloor>t\<rfloor> \<le> round_half_even t" "round_half_even t \<le> \<lceil>t\<rceil>"
proof -
  show "\<lfloor>t\<rfloor> \<le> round_half_even t"
    by (simp add: round_half_even_def Let_def)
  have "\<lfloor>t\<rfloor> + 1 \<le> \<lceil>t\<rceil>" if "t \<noteq> of_int \<lfloor>t\<rfloor>"
    using that by (metis ceiling_altdef order_refl)
  moreover have "t - of_int \<lfloor>t\<rfloor> < 1 / 2" if "t = of_int \<lfloor>t\<rfloor>"
    using that by simp
  ultimately show "round_half_even t \<le> \<lceil>t\<rceil>"
    by (auto simp add: round_half_even_def Let_def ceiling_altdef)
qed

lemma round_double_neg: "round_double (- x) = js_neg (round_double x)"
  by (cases "x = 0"; cases "x < 0") (simp_all add: round_double_def Let_def)

lemma two_powi_add: "(2::rat) powi (m + n) = 2 powi m * 2 powi n"
  by (rule power_int_add) simp

lemma two_powi_diff: "(2::rat) powi (m - n) = 2 powi m / 2 powi n"
  by (rule power_int_diff) simp

lemma round_double_representable:
  assumes m0: "0 < m" and m53: "m \<le> 2 ^ 53" and q: "- 1074 \<le> q"
    and fin: "rat_of_int m * 2 powi q < 2 ^ 1024"
  shows "round_double (of_int m * 2 powi q) = Fin (of_int m * 2 powi q)"
proof -
  define v where "v = rat_of_int m * 2 powi q"
  define e where "e = floor_log2 v"
  define q' where "q' = max (e - 52) (- 1074)"
  from m0 have vpos: "0 < v" by (simp add: v_def two_powi_pos)
  from m53 have "rat_of_int m \<le> rat_of_int (2 ^ 53)" by (rule of_int_le_iff [THEN iffD2])
  then have mle: "rat_of_int m \<le> 2 powi 53" by simp
  have "v \<le> 2 powi 53 * 2 powi q"
    unfolding v_def using mle two_powi_pos [of q] by (simp add: mult_right_mono)
  then have vle: "v \<le> 2 powi (53 + q)" by (simp only: two_powi_add)
  from floor_log2_bounds(1) [OF vpos] have lo: "2 powi e \<le> v" by (simp add: e_def)
  from lo vle have "(2::rat) powi e \<le> 2 powi (53 + q)" by simp
  then have ele: "e \<le> 53 + q" by (rule two_powi_le_exp)
  have "\<exists>z. v = rat_of_int z * 2 powi q'"
  proof (cases "e = 53 + q")
    case True
    with q have q'eq: "q' = q + 1" by (simp add: q'_def)
    from lo vle True have "v = 2 powi (53 + q)" by simp
    also have "\<dots> = 2 powi 52 * 2 powi (q + 1)"
      using two_powi_add [of 52 "q + 1"] by (simp add: add.commute add.left_commute)
    finally have "v = rat_of_int (2 ^ 52) * 2 powi q'" by (simp add: q'eq)
    then show ?thesis by blast
  next
    case False
    with ele q have q'le: "q' \<le> q" by (simp add: q'_def)
    define k where "k = nat (q - q')"
    from q'le have kq: "q = q' + int k" by (simp add: k_def)
    have "2 powi q = (2::rat) powi q' * 2 ^ k"
      unfolding kq by (simp add: two_powi_add)
    then have "v = rat_of_int (m * 2 ^ k) * 2 powi q'"
      by (simp add: v_def)
    then show ?thesis by blast
  qed
  then obtain z where z: "v = rat_of_int z * 2 powi q'" by blast
  have ne: "(2::rat) powi q' \<noteq> 0" by simp
  from z have "v / 2 powi q' = rat_of_int z" using ne by simp
  then have r: "round_half_even (v / 2 powi q') = z"
    by (simp add: round_half_even_of_int)
  from vpos have nz: "v \<noteq> 0" and nn: "\<not> v < 0" and ab: "\<bar>v\<bar> = v" by simp_all
  from fin have nov: "\<not> 2 ^ 1024 \<le> v" by (simp add: v_def)
  have "round_double v = Fin v"
    unfolding round_double_def Let_def ab e_def [symmetric]
    unfolding q'_def [symmetric] r
    unfolding z [symmetric]
    using nz nn nov by simp
  then show ?thesis by (simp only: v_def)
qed


lemma round_double_overflow:
  assumes "2 ^ 1024 \<le> \<bar>x\<bar>"
  shows "round_double x = (if x < 0 then NegInf else PosInf)"
proof -
  define a where "a = \<bar>x\<bar>"
  define e where "e = floor_log2 a"
  define q where "q = max (e - 52) (- 1074)"
  define m where "m = round_half_even (a / 2 powi q)"
  from assms have big: "(2::rat) powi 1024 \<le> a" by (simp add: a_def)
  then have apos: "0 < a" using two_powi_pos [of 1024] by linarith
  then have xnz: "x \<noteq> 0" by (auto simp: a_def)
  from floor_log2_bounds [OF apos] have lo: "2 powi e \<le> a" and hi: "a < 2 powi (e + 1)"
    by (simp_all add: e_def)
  from big hi have "(2::rat) powi 1024 \<le> 2 powi (e + 1)" by linarith
  then have "1024 \<le> e + 1" by (rule two_powi_le_exp)
  moreover have "e \<noteq> 1023"
  proof
    assume "e = 1023"
    with hi have "a < 2 powi 1024" by simp
    with big show False by simp
  qed
  ultimately have e1024: "1024 \<le> e" by simp
  then have qe: "q = e - 52" by (simp add: q_def)
  have "(2::rat) powi 52 = 2 powi e / 2 powi q"
    unfolding qe using two_powi_diff [of e "e - 52"] by simp
  also have "\<dots> \<le> a / 2 powi q"
    using lo two_powi_pos [of q] by (simp add: divide_right_mono)
  finally have "rat_of_int (2 ^ 52) \<le> a / 2 powi q" by simp
  then have "2 ^ 52 \<le> \<lfloor>a / 2 powi q\<rfloor>" by (simp only: le_floor_iff)
  with round_half_even_bounds(1) [of "a / 2 powi q"] have "2 ^ 52 \<le> m"
    unfolding m_def by linarith
  then have "rat_of_int (2 ^ 52) \<le> rat_of_int m" by (rule of_int_le_iff [THEN iffD2])
  then have A: "(2::rat) powi 52 * 2 powi q \<le> rat_of_int m * 2 powi q"
    using two_powi_pos [of q] by (simp add: mult_right_mono)
  have B: "(2::rat) powi e = 2 powi 52 * 2 powi q"
    unfolding qe using two_powi_add [of 52 "e - 52"] by simp
  have C: "(2::rat) powi 1024 \<le> 2 powi e"
    using e1024 by (intro power_int_increasing) simp_all
  from C have "(2::rat) powi 1024 \<le> 2 powi 52 * 2 powi q" by (simp only: B)
  from this A have "(2::rat) powi 1024 \<le> rat_of_int m * 2 powi q" by (rule order_trans)
  then have D: "(2::rat) ^ 1024 \<le> rat_of_int m * 2 powi q"
    by (simp only: power_int_numeral)
  show ?thesis
    using xnz D
    by (simp add: round_double_def Let_def a_def [symmetric] e_def [symmetric]
          q_def [symmetric] m_def [symmetric])
qed

lemma round_double_shape:
  assumes "round_double x = Fin y"
  shows "y = 0 \<or> (\<exists>m q. 0 < m \<and> m \<le> 2 ^ 53 \<and> - 1074 \<le> q
                    \<and> \<bar>y\<bar> = rat_of_int m * 2 powi q \<and> \<bar>y\<bar> < 2 ^ 1024)"
proof (cases "x = 0")
  case True
  with assms show ?thesis by (simp add: round_double_def)
next
  case False
  define a where "a = \<bar>x\<bar>"
  define e where "e = floor_log2 a"
  define q where "q = max (e - 52) (- 1074)"
  define m where "m = round_half_even (a / 2 powi q)"
  define v where "v = rat_of_int m * 2 powi q"
  from False have apos: "0 < a" by (simp add: a_def)
  have rd: "round_double x =
      (if 2 ^ 1024 \<le> v then (if x < 0 then NegInf else PosInf)
       else Fin (if x < 0 then - v else v))"
    using False
    by (simp add: round_double_def Let_def a_def [symmetric] e_def [symmetric]
          q_def [symmetric] m_def [symmetric] v_def [symmetric])
  from assms rd have nov: "v < 2 ^ 1024" and y: "y = (if x < 0 then - v else v)"
    by (auto split: if_splits)
  have tpos: "0 \<le> a / 2 powi q" using apos two_powi_pos [of q] by simp
  then have "0 \<le> \<lfloor>a / 2 powi q\<rfloor>" by simp
  with round_half_even_bounds(1) [of "a / 2 powi q"] have m0: "0 \<le> m"
    unfolding m_def by linarith
  have q1: "e - 52 \<le> q" and q2: "- 1074 \<le> q" by (simp_all add: q_def)
  from floor_log2_bounds(2) [OF apos] have "a < 2 powi (e + 1)" by (simp add: e_def)
  then have "a / 2 powi q < 2 powi (e + 1) / 2 powi q"
    using two_powi_pos [of q] by (simp add: divide_strict_right_mono)
  also have "\<dots> = 2 powi (e + 1 - q)" by (simp only: two_powi_diff)
  also have "\<dots> \<le> 2 powi 53"
    using q1 by (intro power_int_increasing) simp_all
  finally have "a / 2 powi q \<le> rat_of_int (2 ^ 53)" by simp
  then have "\<lceil>a / 2 powi q\<rceil> \<le> 2 ^ 53" by (simp only: ceiling_le_iff)
  with round_half_even_bounds(2) [of "a / 2 powi q"] have m53: "m \<le> 2 ^ 53"
    unfolding m_def by linarith
  have vnn: "0 \<le> v" using m0 two_powi_pos [of q] by (simp add: v_def)
  then have av: "\<bar>y\<bar> = v" by (simp add: y)
  show ?thesis
  proof (cases "m = 0")
    case True
    then show ?thesis by (simp add: y v_def)
  next
    case False
    with m0 have mp: "0 < m" by simp
    from av nov have "\<bar>y\<bar> = rat_of_int m * 2 powi q \<and> \<bar>y\<bar> < 2 ^ 1024"
      by (simp add: v_def)
    with mp m53 q2 show ?thesis by blast
  qed
qed

lemma is_double_zero: "is_double 0"
  by (simp add: is_double_def round_double_def)

lemma is_double_minus: "is_double y \<Longrightarrow> is_double (- y)"
  by (simp add: is_double_def round_double_neg)

lemma round_double_is_double:
  assumes "round_double x = Fin y"
  shows "is_double y"
proof -
  from round_double_shape [OF assms] show ?thesis
  proof
    assume "y = 0"
    then show ?thesis by (simp add: is_double_zero)
  next
    assume "\<exists>m q. 0 < m \<and> m \<le> 2 ^ 53 \<and> - 1074 \<le> q
                    \<and> \<bar>y\<bar> = rat_of_int m * 2 powi q \<and> \<bar>y\<bar> < 2 ^ 1024"
    then obtain m q where "0 < m" "m \<le> 2 ^ 53" "- 1074 \<le> q"
      and y: "\<bar>y\<bar> = rat_of_int m * 2 powi q" and "\<bar>y\<bar> < 2 ^ 1024"
      by blast
    then have "round_double (rat_of_int m * 2 powi q) = Fin (rat_of_int m * 2 powi q)"
      by (intro round_double_representable) simp_all
    then have a: "is_double \<bar>y\<bar>" by (simp add: is_double_def y)
    show ?thesis
    proof (cases "y < 0")
      case True
      with is_double_minus [OF a] show ?thesis by simp
    next
      case False
      with a show ?thesis by simp
    qed
  qed
qed

lemma is_double_of_int:
  assumes "\<bar>n\<bar> \<le> 2 ^ 53"
  shows "is_double (rat_of_int n)"
proof -
  have pos: "is_double (rat_of_int k)" if "0 < k" and "k \<le> 2 ^ 53" for k
  proof -
    from that(2) have "rat_of_int k \<le> rat_of_int (2 ^ 53)" by (rule of_int_le_iff [THEN iffD2])
    also have "\<dots> < 2 ^ 1024" by simp
    finally have "rat_of_int k * 2 powi 0 < 2 ^ 1024" by simp
    with that have "round_double (rat_of_int k * 2 powi 0) = Fin (rat_of_int k * 2 powi 0)"
      by (intro round_double_representable) simp_all
    then show ?thesis by (simp add: is_double_def)
  qed
  consider "n = 0" | "0 < n" | "n < 0" by linarith
  then show ?thesis
  proof cases
    case 1
    then show ?thesis by (simp add: is_double_zero)
  next
    case 2
    with assms pos [of n] show ?thesis by simp
  next
    case 3
    with assms pos [of "- n"] have "is_double (rat_of_int (- n))" by simp
    from is_double_minus [OF this] show ?thesis by simp
  qed
qed

lemma round_double_of_int:
  "\<bar>n\<bar> \<le> 2 ^ 53 \<Longrightarrow> round_double (rat_of_int n) = Fin (rat_of_int n)"
  using is_double_of_int [of n] by (simp add: is_double_def)

lemma round_double_numeral:
  "numeral k \<le> (2::int) ^ 53 \<Longrightarrow> round_double (numeral k) = Fin (numeral k)"
  "numeral k \<le> (2::int) ^ 53 \<Longrightarrow> round_double (- numeral k) = Fin (- numeral k)"
  "round_double 1 = Fin 1"
  using round_double_of_int [of "numeral k"] round_double_of_int [of "- numeral k"]
    round_double_of_int [of 1]
  by simp_all

lemma number_ok_round_double: "number_ok (round_double x)"
  by (cases "round_double x") (simp_all add: number_ok_def round_double_is_double)

lemma number_ok_js_neg: "number_ok n \<Longrightarrow> number_ok (js_neg n)"
  by (cases n) (simp_all add: number_ok_def is_double_minus)

lemma number_ok_parseFloat: "number_ok (parseFloat v)"
proof (cases v)
  case (Num n)
  then show ?thesis
    by (cases n) (simp_all add: number_ok_round_double, simp_all add: number_ok_def)
next
  case (Str s)
  then show ?thesis
    by (simp add: parseFloat_string_def number_ok_round_double split: literal.splits)
       (simp add: number_ok_def)
qed (simp_all add: number_ok_def)

lemma log2_nat_small: "n < 2 \<Longrightarrow> log2_nat n = 0"
  by (simp add: log2_nat.simps [of n])
lemma log2_nat_big: "\<not> n < 2 \<Longrightarrow> log2_nat n = Suc (log2_nat (n div 2))"
  by (simp add: log2_nat.simps [of n])
lemma floor_rat_numeral: "\<lfloor>numeral a / numeral b :: rat\<rfloor> = numeral a div numeral b"
  using floor_divide_of_int_eq [of "numeral a" "numeral b", where ?'a = rat] by simp
lemmas eval_round = round_double_def floor_log2_def round_half_even_def Let_def
  log2_nat_small log2_nat_big floor_rat_numeral
text \<open>
  The rounding at known values: the doubles nearest to 0.1 and 0.2, their sum
  0.30000000000000004, the tie at \<open>2^53 + 1\<close>, and the double nearest to 1.005, which is
  below it.
\<close>

lemma round_double_tenth: "round_double (1 / 10) = Fin (3602879701896397 / 36028797018963968)"
  by (simp add: eval_round)
lemma round_double_fifth: "round_double (2 / 10) = Fin (3602879701896397 / 18014398509481984)"
  by (simp add: eval_round)
lemma round_double_tenth_plus_fifth: "round_double (3602879701896397 / 36028797018963968 + 3602879701896397 / 18014398509481984)
   = Fin (1351079888211149 / 4503599627370496)"
  by (simp add: eval_round)
lemma round_double_tie: "round_double (2 ^ 53 + 1) = Fin (2 ^ 53)"
  by (simp add: eval_round)
lemma round_double_1005: "round_double (201 / 200) = Fin (1131529406376837 / 1125899906842624)"
  by (simp add: eval_round)

subsection \<open>Redaction\<close>

lemma getLastFour_string:
  "getLastFour (Str s) = (if s = [] then ''****'' else drop (length s - 4) s)"
  by (simp add: slice_last4_def)

text \<open>
  C9. \<open>getLastFour\<close> returns the last four characters of a string of length at least four,
  so \<open>getLastFour "1234567890" = "7890"\<close>; it returns the mask \<open>"****"\<close> for a missing
  argument, for the empty string and for every value that is not a string, so
  \<open>getLastFour undefined = "****"\<close>; and it returns a non-empty string of fewer than four
  characters whole, unmasked.
\<close>

theorem getLastFour_spec:
  "(\<forall>s. 4 \<le> length s \<longrightarrow>
        getLastFour (Str s) = drop (length s - 4) s \<and> length (getLastFour (Str s)) = 4)
   \<and> getLastFour (Str ''1234567890'') = ''7890''
   \<and> getLastFour Undefined = ''****''
   \<and> getLastFour Null = ''****''
   \<and> getLastFour (Str []) = ''****''
   \<and> (\<forall>v. \<not> is_string v \<longrightarrow> getLastFour v = ''****'')
   \<and> (\<forall>s. s \<noteq> [] \<and> length s < 4 \<longrightarrow> getLastFour (Str s) = s)"
proof -
  have a: "\<forall>s. 4 \<le> length s \<longrightarrow>
        getLastFour (Str s) = drop (length s - 4) s \<and> length (getLastFour (Str s)) = 4"
    by (auto simp: slice_last4_def)
  have b: "getLastFour (Str ''1234567890'') = ''7890''"
    by (simp add: slice_last4_def)
  have c: "\<forall>v. \<not> is_string v \<longrightarrow> getLastFour v = ''****''"
  proof (intro allI impI)
    fix v assume "\<not> is_string v"
    then show "getLastFour v = ''****''" by (cases v) simp_all
  qed
  have d: "\<forall>s. s \<noteq> [] \<and> length s < 4 \<longrightarrow> getLastFour (Str s) = s"
    by (simp add: slice_last4_def)
  have e: "getLastFour Undefined = ''****'' \<and> getLastFour Null = ''****''
           \<and> getLastFour (Str []) = ''****''"
    by simp
  from a b c d e show ?thesis by blast
qed

theorem getLastFour_spec_witness:
  "getLastFour (Str ''12345'') = ''2345'' \<and> getLastFour (Num (Fin 5)) = ''****''
   \<and> getLastFour (Str ''12'') = ''12''"
proof -
  have long: "4 \<le> length ''12345''" by simp
  have nostr: "\<not> is_string (Num (Fin 5))" by simp
  have short: "''12'' \<noteq> [] \<and> length ''12'' < 4" by simp
  from getLastFour_spec long nostr short
  have "getLastFour (Str ''12345'') = drop (length ''12345'' - 4) ''12345''"
    and "getLastFour (Num (Fin 5)) = ''****''"
    and "getLastFour (Str ''12'') = ''12''"
    by blast+
  then show ?thesis by simp
qed


subsection \<open>Connection probe\<close>

lemma testConnection_loop_3: "testConnection_loop pool (Suc (Suc (Suc 0))) evs = \<lparr>returned = False, events = evs\<rparr>"
  by (simp add: testConnection_loop.simps [of pool "Suc (Suc (Suc 0))"] retryOptions_def)
lemma testConnection_loop_2: "testConnection_loop pool (Suc (Suc 0)) evs =
   (if pool (Suc (Suc 0)) = ProbeOk then \<lparr>returned = True, events = evs @ [Attempt]\<rparr>
    else \<lparr>returned = False, events = evs @ [Attempt]\<rparr>)"
  by (simp add: testConnection_loop.simps [of pool "Suc (Suc 0)"] retryOptions_def testConnection_loop_3 split: probe_outcome.splits)
lemma testConnection_loop_1: "testConnection_loop pool (Suc 0) evs =
   (if pool (Suc 0) = ProbeOk then \<lparr>returned = True, events = evs @ [Attempt]\<rparr>
    else testConnection_loop pool (Suc (Suc 0)) (evs @ [Attempt, Sleep 2000]))"
  by (simp add: testConnection_loop.simps [of pool "Suc 0"] retryOptions_def split: probe_outcome.splits)
lemma testConnection_loop_0: "testConnection_loop pool 0 evs =
   (if pool 0 = ProbeOk then \<lparr>returned = True, events = evs @ [Attempt]\<rparr>
    else testConnection_loop pool (Suc 0) (evs @ [Attempt, Sleep 1000]))"
  by (simp add: testConnection_loop.simps [of pool 0] retryOptions_def split: probe_outcome.splits)
lemma testConnection_unfolded: "testConnection pool =
   (if pool 0 = ProbeOk then \<lparr>returned = True, events = [Attempt]\<rparr>
    else if pool 1 = ProbeOk then \<lparr>returned = True, events = [Attempt, Sleep 1000, Attempt]\<rparr>
    else if pool 2 = ProbeOk then \<lparr>returned = True, events = [Attempt, Sleep 1000, Attempt, Sleep 2000, Attempt]\<rparr>
    else \<lparr>returned = False, events = [Attempt, Sleep 1000, Attempt, Sleep 2000, Attempt]\<rparr>)"
  by (simp add: testConnection_def testConnection_loop_0 testConnection_loop_1 testConnection_loop_2 numeral_2_eq_2)

text \<open>
  C10. \<open>testConnection\<close> makes at most 3 attempts; the sleep that follows the \<open>k\<close>-th
  failed attempt lasts the base delay multiplied by \<open>k\<close>; and when all 3 attempts fail
  it returns \<open>false\<close>, a value, after sleeps of once and twice the base delay and no
  sleep after the last attempt. It returns \<open>false\<close> in no other case.
\<close>

theorem testConnection_retries:
  "attempts_made (testConnection pool) \<le> maxRetries retryOptions
   \<and> maxRetries retryOptions = 3
   \<and> (\<forall>k. 1 \<le> k \<and> k \<le> length (sleeps (events (testConnection pool))) \<longrightarrow>
          sleeps (events (testConnection pool)) ! (k - 1) = retryDelay retryOptions * k
          \<and> attempts_before_sleep (events (testConnection pool)) k = k)
   \<and> ((\<forall>n < maxRetries retryOptions. pool n \<noteq> ProbeOk) \<longrightarrow>
          returned (testConnection pool) = False
          \<and> attempts_made (testConnection pool) = 3
          \<and> sleeps (events (testConnection pool)) = [retryDelay retryOptions * 1, retryDelay retryOptions * 2])
   \<and> (returned (testConnection pool) = False \<longrightarrow> (\<forall>n < maxRetries retryOptions. pool n \<noteq> ProbeOk))"
proof -
  have m: "maxRetries retryOptions = 3" and d: "retryDelay retryOptions = 1000"
    by (simp_all add: retryOptions_def)
  have lt3: "\<And>P. (\<forall>n<3::nat. P n) = (P 0 \<and> P 1 \<and> P 2)"
    by (auto simp: less_Suc_eq numeral_3_eq_3 numeral_2_eq_2)
  have k2: "\<And>k::nat. 1 \<le> k \<Longrightarrow> k \<le> 2 \<Longrightarrow> k = 1 \<or> k = 2" by arith
  have a: "attempts_made (testConnection pool) \<le> 3"
    by (simp add: testConnection_unfolded attempts_made_def)
  have b: "\<forall>k. 1 \<le> k \<and> k \<le> length (sleeps (events (testConnection pool))) \<longrightarrow>
          sleeps (events (testConnection pool)) ! (k - 1) = 1000 * k
          \<and> attempts_before_sleep (events (testConnection pool)) k = k"
  proof (intro allI impI)
    fix k assume k: "1 \<le> k \<and> k \<le> length (sleeps (events (testConnection pool)))"
    then have "k \<le> 2" by (simp add: testConnection_unfolded split: if_splits)
    with k k2 have "k = 1 \<or> k = 2" by blast
    with k show "sleeps (events (testConnection pool)) ! (k - 1) = 1000 * k
          \<and> attempts_before_sleep (events (testConnection pool)) k = k"
      by (auto simp: testConnection_unfolded split: if_splits)
  qed
  have c: "(\<forall>n < 3. pool n \<noteq> ProbeOk) \<longrightarrow>
          returned (testConnection pool) = False
          \<and> attempts_made (testConnection pool) = 3
          \<and> sleeps (events (testConnection pool)) = [1000, 2000]"
    by (simp add: lt3 testConnection_unfolded attempts_made_def)
  have e: "returned (testConnection pool) = False \<longrightarrow> (\<forall>n < 3. pool n \<noteq> ProbeOk)"
    by (simp add: lt3 testConnection_unfolded split: if_splits)
  from a b c e show ?thesis by (simp add: m d)
qed

theorem testConnection_retries_witness:
  "ConnectTimeout \<noteq> ProbeOk
   \<and> returned (testConnection (\<lambda>n. ConnectTimeout)) = False
   \<and> attempts_made (testConnection (\<lambda>n. ConnectTimeout)) = 3
   \<and> sleeps (events (testConnection (\<lambda>n. ConnectTimeout))) = [1000, 2000]
   \<and> 1 \<le> (2::nat) \<and> 2 \<le> length (sleeps (events (testConnection (\<lambda>n. ConnectTimeout))))
   \<and> sleeps (events (testConnection (\<lambda>n. ConnectTimeout))) ! (2 - 1) = 1000 * 2
   \<and> attempts_before_sleep (events (testConnection (\<lambda>n. ConnectTimeout))) 2 = 2"
proof -
  let ?pool = "\<lambda>n::nat. ConnectTimeout"
  note t = testConnection_retries [of ?pool]
  have h: "\<forall>n < maxRetries retryOptions. ?pool n \<noteq> ProbeOk" by simp
  from t h have r: "returned (testConnection ?pool) = False"
    and n: "attempts_made (testConnection ?pool) = 3"
    and s: "sleeps (events (testConnection ?pool)) = [1000, 2000]"
    by (simp_all add: retryOptions_def)
  from s have k: "1 \<le> (2::nat) \<and> 2 \<le> length (sleeps (events (testConnection ?pool)))"
    by simp
  from t k have "sleeps (events (testConnection ?pool)) ! (2 - 1) = retryDelay retryOptions * 2
      \<and> attempts_before_sleep (events (testConnection ?pool)) 2 = 2"
    by blast
  with r n s k show ?thesis by (simp add: retryOptions_def)
qed

subsection \<open>Fetching\<close>

lemma js_add_zero_left: "number_ok x \<Longrightarrow> js_add (Fin 0) x = x"
  by (cases x) (simp_all add: number_ok_def is_double_def)

lemma number_ok_signedAmount_processRow:
  "number_ok (signedAmount a (processRow h a' row))"
proof -
  have "number_ok (number_of (tx.amount (processRow h a' row)))"
    using number_ok_parseFloat [of "js_or (ledger_row.amount row) (Num (Fin 0))"]
    by (simp add: processRow_def Let_def) (simp add: number_ok_def is_double_zero)
  then show ?thesis
    by (simp add: signedAmount_def number_ok_js_neg)
qed

lemma length_assignBalance: "length (assignBalance h a b ts) = length ts"
  by (induction ts arbitrary: b) (simp_all add: Let_def)

lemma assignBalance_fields:
  "map fromAccount (assignBalance h a b ts) = map fromAccount ts"
  "map tx.amount (assignBalance h a b ts) = map tx.amount ts"
  "map transactionDate (assignBalance h a b ts) = map transactionDate ts"
  "map type (assignBalance h a b ts) = map type ts"
  "map tx.category (assignBalance h a b ts) = map tx.category ts"
  "map tx.transactionType (assignBalance h a b ts) = map tx.transactionType ts"
  by (induction ts arbitrary: b) (simp_all add: Let_def)

lemma signedAmount_assignBalance:
  "map (signedAmount a) (assignBalance h a' b ts) = map (signedAmount a) ts"
  by (induction ts arbitrary: b) (simp_all add: Let_def signedAmount_def)

lemma balance_assignBalance:
  "i < length ts \<Longrightarrow>
   balance (assignBalance h a b ts ! i) = Num (foldl js_add b (map (signedAmount a) (take (Suc i) ts)))"
proof (induction ts arbitrary: b i)
  case Nil
  then show ?case by simp
next
  case (Cons t ts)
  show ?case
  proof (cases i)
    case 0
    then show ?thesis by (simp add: Let_def signedAmount_def)
  next
    case (Suc j)
    with Cons.prems have "j < length ts" by simp
    from Cons.IH [OF this] Suc show ?thesis
      by (simp add: Let_def signedAmount_def)
  qed
qed

lemma getTransactionData_Inr:
  assumes "getTransactionData h st accountId = Inr r"
  shows "\<exists>rows. ledgerQuery st accountId = Fulfilled rows
           \<and> transactions r = assignBalance h accountId (Fin 0) (map (processRow h accountId) rows)"
  using assms
  by (auto simp: getTransactionData_def getTransactionData_try_def Let_def
           split: if_splits settled.splits sum.splits)


lemma js_sum_snoc: "js_sum (xs @ [x]) = js_add (js_sum xs) x"
  by (simp add: js_sum_def)

lemma foldl_js_add_exact:
  assumes "\<And>k. k < length qs \<Longrightarrow> is_double (a + sum_list (take (Suc k) qs))"
  shows "foldl js_add (Fin a) (map Fin qs) = Fin (a + sum_list qs)"
  using assms
proof (induction qs arbitrary: a)
  case Nil
  show ?case by simp
next
  case (Cons q qs)
  from Cons.prems [of 0] have h: "round_double (a + q) = Fin (a + q)"
    by (simp add: is_double_def)
  have "is_double (a + q + sum_list (take (Suc k) qs))" if "k < length qs" for k
    using Cons.prems [of "Suc k"] that by (simp add: add.assoc)
  from Cons.IH [OF this] show ?case
    by (simp add: h add.assoc)
qed

lemma js_sum_exact:
  assumes "\<And>k. k < length qs \<Longrightarrow> is_double (sum_list (take (Suc k) qs))"
  shows "js_sum (map Fin qs) = Fin (sum_list qs)"
  using foldl_js_add_exact [of qs 0] assms by (simp add: js_sum_def)

lemma example_fetch:
  "getTransactionData example_host example_stores (Str ''A1'') = Inr example_response"
  by (simp add: getTransactionData_def getTransactionData_try_def example_stores_def
        example_response_def example_transactions_def
        testConnection_unfolded example_rows_def ownerName_def trim_def is_ws_def slice_last4_def)

lemma example_balances:
  "map balance example_transactions = [Num (Fin 50), Num (Fin (- 50))]"
  by (simp add: example_transactions_def example_rows_def processRow_def js_or_def Let_def
        round_double_numeral)

text \<open>
  C1. When \<open>getTransactionData\<close> returns a non-empty list, the balance of the transaction at
  position \<open>i\<close> is the sum of the signed amounts at positions 0 to \<open>i\<close> of the returned
  list, where the signed amount is the amount negated when \<open>fromAccount\<close> is the requested
  account and the amount otherwise. The sum is the one that the additions of the language
  give from the left, each rounded to a double; it is the exact sum when every partial sum
  is a double. The first balance is the first signed amount and each later balance is the
  previous balance plus the signed amount; and the list is in the order of the rows of the
  ledger query.
\<close>

theorem getTransactionData_running_balance:
  assumes "getTransactionData h st accountId = Inr r" and "transactions r \<noteq> []"
  shows "(\<forall>i < length (transactions r).
            balance (transactions r ! i) =
              Num (js_sum (map (signedAmount accountId) (take (Suc i) (transactions r)))))
       \<and> (\<forall>i qs. i < length (transactions r)
              \<and> map (signedAmount accountId) (take (Suc i) (transactions r)) = map Fin qs
              \<and> (\<forall>k \<le> i. is_double (sum_list (take (Suc k) qs))) \<longrightarrow>
            balance (transactions r ! i) = Num (Fin (sum_list qs)))
       \<and> balance (transactions r ! 0) = Num (signedAmount accountId (transactions r ! 0))
       \<and> (\<forall>i. 0 < i \<and> i < length (transactions r) \<longrightarrow>
            balance (transactions r ! i) =
              Num (js_add (number_of (balance (transactions r ! (i - 1))))
                          (signedAmount accountId (transactions r ! i))))
       \<and> (\<exists>rows. ledgerQuery st accountId = Fulfilled rows
            \<and> map transactionDate (transactions r) = map ledger_row.timestamp rows)"
proof -
  from getTransactionData_Inr [OF assms(1)] obtain rows where
    q: "ledgerQuery st accountId = Fulfilled rows" and
    t: "transactions r = assignBalance h accountId (Fin 0) (map (processRow h accountId) rows)"
    by blast
  let ?ps = "map (processRow h accountId) rows"
  let ?ts = "transactions r"
  have len: "length ?ts = length ?ps" by (simp add: t length_assignBalance)
  have sg: "map (signedAmount accountId) ?ts = map (signedAmount accountId) ?ps"
    by (simp add: t signedAmount_assignBalance)
  have bal: "balance (?ts ! i) = Num (js_sum (map (signedAmount accountId) (take (Suc i) ?ts)))"
    if "i < length ?ts" for i
  proof -
    from that len have "i < length ?ps" by simp
    then have "balance (?ts ! i) =
        Num (foldl js_add (Fin 0) (map (signedAmount accountId) (take (Suc i) ?ps)))"
      unfolding t by (rule balance_assignBalance)
    also have "map (signedAmount accountId) (take (Suc i) ?ps) =
        map (signedAmount accountId) (take (Suc i) ?ts)"
      by (simp only: take_map [symmetric] sg)
    finally show ?thesis by (simp add: js_sum_def)
  qed
  have fin: "balance (?ts ! i) = Num (Fin (sum_list qs))"
    if "i < length ?ts \<and> map (signedAmount accountId) (take (Suc i) ?ts) = map Fin qs
        \<and> (\<forall>k \<le> i. is_double (sum_list (take (Suc k) qs)))"
    for i qs
  proof -
    from that have il: "i < length ?ts"
      and m: "map (signedAmount accountId) (take (Suc i) ?ts) = map Fin qs"
      and d: "\<forall>k \<le> i. is_double (sum_list (take (Suc k) qs))"
      by simp_all
    from m have "length (take (Suc i) ?ts) = length qs"
      by (metis length_map)
    with il have "length qs = Suc i" by simp
    with d have "is_double (sum_list (take (Suc k) qs))" if "k < length qs" for k
      using that by simp
    then have "js_sum (map Fin qs) = Fin (sum_list qs)" by (rule js_sum_exact)
    with bal [OF il] m show ?thesis by simp
  qed
  from assms(2) have pos: "0 < length ?ts" by simp
  have ok: "number_ok (signedAmount accountId (?ts ! 0))"
  proof -
    from pos len have p: "0 < length rows" by simp
    from pos have "signedAmount accountId (?ts ! 0) = map (signedAmount accountId) ?ts ! 0"
      by simp
    also have "\<dots> = signedAmount accountId (processRow h accountId (rows ! 0))"
      unfolding sg using p by simp
    finally show ?thesis by (simp add: number_ok_signedAmount_processRow)
  qed
  have first: "balance (?ts ! 0) = Num (signedAmount accountId (?ts ! 0))"
    using bal [OF pos] pos
    by (simp add: take_Suc_conv_app_nth js_sum_def js_add_zero_left [OF ok])
  have step: "balance (?ts ! i) =
      Num (js_add (number_of (balance (?ts ! (i - 1)))) (signedAmount accountId (?ts ! i)))"
    if "0 < i \<and> i < length ?ts" for i
  proof -
    from that obtain j where j: "i = Suc j" by (cases i) auto
    with that have jl: "j < length ?ts" and il: "Suc j < length ?ts" by simp_all
    have "take (Suc (Suc j)) ?ts = take (Suc j) ?ts @ [?ts ! Suc j]"
      using il by (rule take_Suc_conv_app_nth)
    then have "js_sum (map (signedAmount accountId) (take (Suc (Suc j)) ?ts)) =
        js_add (js_sum (map (signedAmount accountId) (take (Suc j) ?ts)))
               (signedAmount accountId (?ts ! Suc j))"
      by (simp add: js_sum_snoc)
    with bal [OF jl] bal [OF il] j show ?thesis by simp
  qed
  have order: "map transactionDate ?ts = map ledger_row.timestamp rows"
    by (simp add: t assignBalance_fields processRow_def Let_def comp_def)
  from bal fin first step q order show ?thesis by blast
qed

theorem getTransactionData_running_balance_witness:
  "getTransactionData example_host example_stores (Str ''A1'') = Inr example_response
   \<and> transactions example_response \<noteq> []
   \<and> balance (transactions example_response ! 0) = Num (Fin 50)
   \<and> signedAmount (Str ''A1'') (transactions example_response ! 1) = Fin (- 100)
   \<and> balance (transactions example_response ! 1) =
       Num (js_add (number_of (balance (transactions example_response ! 0)))
                   (signedAmount (Str ''A1'') (transactions example_response ! 1)))
   \<and> balance (transactions example_response ! 1) = Num (Fin (- 50))"
proof -
  have "length example_rows = 2"
    by (simp add: example_rows_def)
  then have len: "0 < (1::nat) \<and> 1 < length (transactions example_response)"
    by (simp add: example_response_def example_transactions_def length_assignBalance)
  from len have l0: "0 < length (transactions example_response)"
    and l1: "1 < length (transactions example_response)"
    by arith+
  from l0 have ne: "transactions example_response \<noteq> []"
    using length_greater_0_conv by blast
  note t = getTransactionData_running_balance [OF example_fetch ne]
  from t len have step: "balance (transactions example_response ! 1) =
       Num (js_add (number_of (balance (transactions example_response ! (1 - 1))))
                   (signedAmount (Str ''A1'') (transactions example_response ! 1)))"
    by blast
  have b: "map balance (transactions example_response) = [Num (Fin 50), Num (Fin (- 50))]"
    by (simp add: example_response_def example_balances)
  have b0: "balance (transactions example_response ! 0) =
      map balance (transactions example_response) ! 0"
    by (rule nth_map [OF l0, symmetric])
  have b1: "balance (transactions example_response ! 1) =
      map balance (transactions example_response) ! 1"
    by (rule nth_map [OF l1, symmetric])
  have sg: "signedAmount (Str ''A1'') (transactions example_response ! 1) = Fin (- 100)"
    by (simp add: example_response_def example_transactions_def example_rows_def
          processRow_def js_or_def Let_def signedAmount_def round_double_numeral)
  from example_fetch ne step sg b0 b1 show ?thesis by (simp add: b)
qed

lemma processRow_type:
  "type (processRow h accountId row) =
     Str (if strict_eq (from_acct row) accountId then ''Debit'' else ''Credit'')"
  by (simp add: processRow_def Let_def)

lemma type_assignBalance:
  "i < length ts \<Longrightarrow> type (assignBalance h a b ts ! i) = type (ts ! i)"
  using assignBalance_fields(4) [of h a b ts]
  by (metis length_assignBalance nth_map)

text \<open>
  C3. When the rows of the ledger query come in descending order of timestamp, as the query
  asks, \<open>getTransactionData\<close> returns one transaction for each row, in the same order, so
  in descending order of timestamp; and the \<open>type\<close> of each transaction is \<open>Debit\<close>
  exactly when the \<open>from_acct\<close> of its row is strictly equal to the requested account
  (for two strings: the same string), and \<open>Credit\<close> otherwise.
\<close>

theorem getTransactionData_order_and_direction:
  assumes "getTransactionData h st accountId = Inr r"
    and "ledgerQuery st accountId = Fulfilled rows"
    and "timestamp_desc (map ledger_row.timestamp rows)"
  shows "timestamp_desc (map transactionDate (transactions r))
       \<and> map transactionDate (transactions r) = map ledger_row.timestamp rows
       \<and> length (transactions r) = length rows
       \<and> (\<forall>i < length rows.
             (type (transactions r ! i) = Str ''Debit'' \<longleftrightarrow> strict_eq (from_acct (rows ! i)) accountId)
           \<and> (type (transactions r ! i) = Str ''Credit'' \<longleftrightarrow> \<not> strict_eq (from_acct (rows ! i)) accountId)
           \<and> (\<forall>a f. accountId = Str a \<and> from_acct (rows ! i) = Str f \<longrightarrow>
                 (type (transactions r ! i) = Str ''Debit'' \<longleftrightarrow> f = a)))"
proof -
  from getTransactionData_Inr [OF assms(1)] assms(2) have
    t: "transactions r = assignBalance h accountId (Fin 0) (map (processRow h accountId) rows)"
    by auto
  have order: "map transactionDate (transactions r) = map ledger_row.timestamp rows"
    by (simp add: t assignBalance_fields processRow_def Let_def comp_def)
  have len: "length (transactions r) = length rows"
    by (simp add: t length_assignBalance)
  have ty: "type (transactions r ! i) =
      Str (if strict_eq (from_acct (rows ! i)) accountId then ''Debit'' else ''Credit'')"
    if "i < length rows" for i
    using that by (simp add: t type_assignBalance processRow_type)
  have dir: "(type (transactions r ! i) = Str ''Debit'' \<longleftrightarrow> strict_eq (from_acct (rows ! i)) accountId)
           \<and> (type (transactions r ! i) = Str ''Credit'' \<longleftrightarrow> \<not> strict_eq (from_acct (rows ! i)) accountId)
           \<and> (\<forall>a f. accountId = Str a \<and> from_acct (rows ! i) = Str f \<longrightarrow>
                 (type (transactions r ! i) = Str ''Debit'' \<longleftrightarrow> f = a))"
    if "i < length rows" for i
    using ty [OF that] by auto
  from order assms(3) len dir show ?thesis by simp
qed

theorem getTransactionData_order_and_direction_witness:
  "getTransactionData example_host example_stores (Str ''A1'') = Inr example_response
   \<and> ledgerQuery example_stores (Str ''A1'') = Fulfilled example_rows
   \<and> timestamp_desc (map ledger_row.timestamp example_rows)
   \<and> timestamp_desc (map transactionDate (transactions example_response))
   \<and> type (transactions example_response ! 0) = Str ''Credit''
   \<and> type (transactions example_response ! 1) = Str ''Debit''"
proof -
  have q: "ledgerQuery example_stores (Str ''A1'') = Fulfilled example_rows"
    by (simp add: example_stores_def)
  have d: "timestamp_desc (map ledger_row.timestamp example_rows)"
    by (simp add: example_rows_def timestamp_desc_def later_or_same_def)
  note t = getTransactionData_order_and_direction [OF example_fetch q d]
  have i0: "0 < length example_rows" and i1: "1 < length example_rows"
    by (simp_all add: example_rows_def)
  have f0: "\<not> strict_eq (from_acct (example_rows ! 0)) (Str ''A1'')"
    and f1: "strict_eq (from_acct (example_rows ! 1)) (Str ''A1'')"
    by (simp_all add: example_rows_def)
  from t i0 f0 have c: "type (transactions example_response ! 0) = Str ''Credit''"
    by blast
  from t i1 f1 have b: "type (transactions example_response ! 1) = Str ''Debit''"
    by blast
  from t have s: "timestamp_desc (map transactionDate (transactions example_response))"
    by blast
  from example_fetch q d s c b show ?thesis by blast
qed

lemma ownerName_empty: "ownerName h \<lparr>firstname = Str [], lastname = Str []\<rparr> = ''Unknown''"
  by (simp add: ownerName_def trim_def is_ws_def)

text \<open>
  C6. For an account whose ledger probe and ledger query succeed: when the probe of the
  identity store fails, or the identity query is rejected, or it returns no row, or the
  names of its first row are empty, \<open>getTransactionData\<close> still returns a response; its
  \<open>accountOwner\<close> is \<open>Unknown\<close> and its transactions are all the rows, normalized.
\<close>

theorem getTransactionData_identity_failure:
  assumes "truthy accountId"
    and "returned (testConnection (ledgerProbe st))"
    and "ledgerQuery st accountId = Fulfilled rows"
    and "\<not> returned (testConnection (accountsProbe st))
         \<or> (\<exists>m. accountsQuery st accountId = Rejected m)
         \<or> accountsQuery st accountId = Fulfilled []
         \<or> (\<exists>us. accountsQuery st accountId =
                  Fulfilled (\<lparr>firstname = Str [], lastname = Str []\<rparr> # us))"
  shows "\<exists>r. getTransactionData h st accountId = Inr r
           \<and> accountOwner r = ''Unknown''
           \<and> transactions r = assignBalance h accountId (Fin 0) (map (processRow h accountId) rows)
           \<and> length (transactions r) = length rows"
  using assms
  by (auto simp: getTransactionData_def getTransactionData_try_def Let_def ownerName_empty
        length_assignBalance split: settled.splits list.splits)

theorem getTransactionData_identity_failure_witness:
  "truthy (Str ''A1'')
   \<and> returned (testConnection (ledgerProbe example_stores))
   \<and> ledgerQuery example_stores (Str ''A1'') = Fulfilled example_rows
   \<and> accountsQuery example_stores (Str ''A1'') = Rejected ''connection refused''
   \<and> (\<exists>r. getTransactionData example_host example_stores (Str ''A1'') = Inr r
           \<and> accountOwner r = ''Unknown'' \<and> length (transactions r) = 2)"
proof -
  have a: "truthy (Str ''A1'')" by simp
  have b: "returned (testConnection (ledgerProbe example_stores))"
    by (simp add: example_stores_def testConnection_unfolded)
  have c: "ledgerQuery example_stores (Str ''A1'') = Fulfilled example_rows"
    by (simp add: example_stores_def)
  have d: "accountsQuery example_stores (Str ''A1'') = Rejected ''connection refused''"
    by (simp add: example_stores_def)
  then have e: "\<not> returned (testConnection (accountsProbe example_stores))
         \<or> (\<exists>m. accountsQuery example_stores (Str ''A1'') = Rejected m)
         \<or> accountsQuery example_stores (Str ''A1'') = Fulfilled []
         \<or> (\<exists>us. accountsQuery example_stores (Str ''A1'') =
                  Fulfilled (\<lparr>firstname = Str [], lastname = Str []\<rparr> # us))"
    by blast
  have l: "length example_rows = 2" by (simp add: example_rows_def)
  from getTransactionData_identity_failure [OF a b c e, of example_host] l
  have "\<exists>r. getTransactionData example_host example_stores (Str ''A1'') = Inr r
           \<and> accountOwner r = ''Unknown'' \<and> length (transactions r) = 2"
    by auto
  with a b c d show ?thesis by blast
qed

subsection \<open>Filtering\<close>

lemma checks_summaryType:
  "merchant_excludes (p\<lparr>summaryType := v\<rparr>) t = merchant_excludes p t"
  "before_start h (p\<lparr>summaryType := v\<rparr>) t = before_start h p t"
  "after_end h (p\<lparr>summaryType := v\<rparr>) t = after_end h p t"
  by (simp_all add: merchant_excludes_def before_start_def after_end_def)

lemma keepTransaction_summaryType:
  "keepTransaction h (p\<lparr>summaryType := v\<rparr>) = keepTransaction h p"
  by (rule ext) (simp add: keepTransaction_def checks_summaryType cong: if_cong split del: if_split)

lemma filterTransactions_summaryType:
  "filterTransactions h txs userId (p\<lparr>summaryType := v\<rparr>) = filterTransactions h txs userId p"
  by (simp only: filterTransactions_def keepTransaction_summaryType)

lemma strict_eq_Str: "strict_eq v (Str s) \<longleftrightarrow> v = Str s"
  by (cases v) auto

lemma differs_Undefined: "differs p Undefined = Inr False"
  by (simp add: differs_def)

lemma differs_falsy: "\<not> truthy p \<Longrightarrow> differs p f = Inr False"
  by (simp add: differs_def)

lemma filter_throwing_cong:
  "(\<And>x. x \<in> set xs \<Longrightarrow> f x = g x) \<Longrightarrow> filter_throwing f xs = filter_throwing g xs"
  by (induction xs) simp_all

lemma filter_throwing_all:
  "(\<And>x. x \<in> set xs \<Longrightarrow> f x = Inr True) \<Longrightarrow> filter_throwing f xs = Inr xs"
  by (induction xs) (simp_all add: and_then_def)

lemma filter_throwing_none:
  "(\<And>x. x \<in> set xs \<Longrightarrow> f x = Inr False) \<Longrightarrow> filter_throwing f xs = Inr []"
  by (induction xs) (simp_all add: and_then_def)

lemma checks_category_type:
  "merchant_excludes (p\<lparr>params.category := c, params.transactionType := y\<rparr>) t = merchant_excludes p t"
  "before_start h (p\<lparr>params.category := c, params.transactionType := y\<rparr>) t = before_start h p t"
  "after_end h (p\<lparr>params.category := c, params.transactionType := y\<rparr>) t = after_end h p t"
  by (simp_all add: merchant_excludes_def before_start_def after_end_def)

lemma keepTransaction_without_category_type:
  assumes "tx.category t = Undefined" and "tx.transactionType t = Undefined"
  shows "keepTransaction h p t =
         keepTransaction h (p\<lparr>params.category := Undefined, params.transactionType := Undefined\<rparr>) t"
  using assms
  by (simp add: keepTransaction_def checks_category_type differs_Undefined
        cong: if_cong split del: if_split)

lemma keepTransaction_only_category_type:
  assumes "tx.category t = Undefined" and "tx.transactionType t = Undefined"
    and "\<not> truthy (recipient p)" and "\<not> truthy (sender p)" and "\<not> truthy (merchantName p)"
    and "\<not> truthy (startDate p)" and "\<not> truthy (endDate p)"
  shows "keepTransaction h p t = Inr True"
  using assms
  by (simp add: keepTransaction_def differs_Undefined differs_falsy merchant_excludes_def
        before_start_def after_end_def and_then_def)

lemma filterTransactions_unfiltered:
  assumes "\<And>t. t \<in> set ts \<Longrightarrow> tx.category t = Undefined \<and> tx.transactionType t = Undefined"
    and "\<not> truthy (recipient p)" and "\<not> truthy (sender p)" and "\<not> truthy (merchantName p)"
    and "\<not> truthy (startDate p)" and "\<not> truthy (endDate p)"
  shows "filterTransactions h (TxArray ts) userId p = Inr ts"
  unfolding filterTransactions_def tx_arg.case
  by (rule filter_throwing_all) (simp add: assms keepTransaction_only_category_type)

lemma fetched_fields:
  assumes "getTransactionData h st accountId = Inr r" and "t \<in> set (transactions r)"
  shows "tx.category t = Undefined \<and> tx.transactionType t = Undefined"
proof -
  from getTransactionData_Inr [OF assms(1)] obtain rows where
    t: "transactions r = assignBalance h accountId (Fin 0) (map (processRow h accountId) rows)"
    by blast
  have "map tx.category (transactions r) = map (\<lambda>x. Undefined) rows"
    and "map tx.transactionType (transactions r) = map (\<lambda>x. Undefined) rows"
    by (simp_all add: t assignBalance_fields processRow_def Let_def comp_def)
  then have "set (map tx.category (transactions r)) \<subseteq> {Undefined}"
    and "set (map tx.transactionType (transactions r)) \<subseteq> {Undefined}"
    by auto
  with assms(2) show ?thesis by auto
qed

text \<open>The transactions of the concrete request under the concrete parameter sets.\<close>

lemma example_members:
  assumes "t \<in> set example_transactions"
  shows "tx.category t = Undefined \<and> tx.transactionType t = Undefined
       \<and> (fromAccount t = Str ''B'' \<and> toAccount t = Str ''A1'' \<and> tx.amount t = Num (Fin 50)
          \<or> fromAccount t = Str ''A1'' \<and> toAccount t = Str ''B'' \<and> tx.amount t = Num (Fin 100))"
  using assms
  by (auto simp add: example_transactions_def example_rows_def Let_def processRow_def js_or_def
        round_double_numeral)

lemma example_length: "length example_transactions = 2"
  by (simp add: example_transactions_def length_assignBalance) (simp add: example_rows_def)

lemma example_amounts: "map tx.amount example_transactions = [Num (Fin 50), Num (Fin 100)]"
  by (simp add: example_transactions_def assignBalance_fields)
     (simp add: example_rows_def processRow_def Let_def js_or_def round_double_numeral)

lemma example_unfiltered:
  assumes "\<not> truthy (recipient p)" and "\<not> truthy (sender p)" and "\<not> truthy (merchantName p)"
    and "\<not> truthy (startDate p)" and "\<not> truthy (endDate p)"
  shows "filterTransactions h (TxArray example_transactions) userId p = Inr example_transactions"
  using example_members assms by (intro filterTransactions_unfiltered) auto

lemma example_merchant_filter:
  "filterTransactions h (TxArray example_transactions) userId category_and_merchant = Inr []"
proof -
  have "keepTransaction h category_and_merchant t = Inr False"
    if "t \<in> set example_transactions" for t
    using example_members [OF that]
    by (auto simp add: keepTransaction_def category_and_merchant_def no_filters_def differs_def
          merchant_excludes_def field_includes_def toLowerCase_def lower_string_def
          lower_char_def and_then_def)
  then show ?thesis
    unfolding filterTransactions_def tx_arg.case by (rule filter_throwing_none)
qed

lemma example_involved:
  "filter (involves (Str ''A1'')) example_transactions = example_transactions"
proof -
  have "involves (Str ''A1'') t" if "t \<in> set example_transactions" for t
    using example_members [OF that] by (auto simp: involves_def)
  then show ?thesis by simp
qed

lemma example_parsed: "map parsedAmount example_transactions = [Fin 50, Fin 100]"
proof -
  have "map parsedAmount example_transactions =
      map (\<lambda>a. parseFloat (js_or a (Num (Fin 0)))) (map tx.amount example_transactions)"
    by (simp add: parsedAmount_def comp_def)
  then show ?thesis by (simp add: example_amounts js_or_def round_double_numeral)
qed

text \<open>
  C4. On the transactions that \<open>getTransactionData\<close> returns, which have no \<open>category\<close>
  and no \<open>transactionType\<close> (the direction is stored under \<open>type\<close>), the category and
  transaction-type checks of \<open>filterTransactions\<close> exclude nothing: filtering gives the
  same result as with both parameters unset, and when no other parameter is set it gives
  back the whole list.
\<close>

theorem category_and_type_never_exclude:
  assumes "getTransactionData h st accountId = Inr r"
  shows "(\<forall>t \<in> set (transactions r). tx.category t = Undefined \<and> tx.transactionType t = Undefined)
       \<and> filterTransactions h (TxArray (transactions r)) userId p =
           filterTransactions h (TxArray (transactions r)) userId
             (p\<lparr>params.category := Undefined, params.transactionType := Undefined\<rparr>)
       \<and> (\<not> truthy (recipient p) \<and> \<not> truthy (sender p) \<and> \<not> truthy (merchantName p)
            \<and> \<not> truthy (startDate p) \<and> \<not> truthy (endDate p) \<longrightarrow>
           filterTransactions h (TxArray (transactions r)) userId p = Inr (transactions r))"
proof -
  have f: "tx.category t = Undefined \<and> tx.transactionType t = Undefined"
    if "t \<in> set (transactions r)" for t
    using fetched_fields [OF assms that] .
  have a: "filterTransactions h (TxArray (transactions r)) userId p =
           filterTransactions h (TxArray (transactions r)) userId
             (p\<lparr>params.category := Undefined, params.transactionType := Undefined\<rparr>)"
    unfolding filterTransactions_def tx_arg.case
    by (rule filter_throwing_cong) (rule keepTransaction_without_category_type, simp_all add: f)
  have b: "filterTransactions h (TxArray (transactions r)) userId p = Inr (transactions r)"
    if "\<not> truthy (recipient p) \<and> \<not> truthy (sender p) \<and> \<not> truthy (merchantName p)
            \<and> \<not> truthy (startDate p) \<and> \<not> truthy (endDate p)"
    unfolding filterTransactions_def tx_arg.case
    by (rule filter_throwing_all) (simp add: f that keepTransaction_only_category_type)
  from f a b show ?thesis by blast
qed

theorem category_and_type_never_exclude_witness:
  "getTransactionData example_host example_stores (Str ''A1'') = Inr example_response
   \<and> params.category category_and_type = Str ''groceries''
   \<and> params.transactionType category_and_type = Str ''debit''
   \<and> map type (transactions example_response) = [Str ''Credit'', Str ''Debit'']
   \<and> filterTransactions example_host (TxArray (transactions example_response)) (Str ''A1'')
        category_and_type = Inr (transactions example_response)"
proof -
  have o: "\<not> truthy (recipient category_and_type) \<and> \<not> truthy (sender category_and_type)
      \<and> \<not> truthy (merchantName category_and_type)
      \<and> \<not> truthy (startDate category_and_type) \<and> \<not> truthy (endDate category_and_type)"
    by (simp add: category_and_type_def no_filters_def)
  have c: "params.category category_and_type = Str ''groceries''
      \<and> params.transactionType category_and_type = Str ''debit''"
    by (simp add: category_and_type_def)
  have ty: "map type (transactions example_response) = [Str ''Credit'', Str ''Debit'']"
    by (simp add: example_response_def example_transactions_def assignBalance_fields)
       (simp add: example_rows_def processRow_type)
  from category_and_type_never_exclude [OF example_fetch, of "Str ''A1''" category_and_type] o
  have "filterTransactions example_host (TxArray (transactions example_response)) (Str ''A1'')
        category_and_type = Inr (transactions example_response)"
    by blast
  with example_fetch c ty show ?thesis by blast
qed

subsection \<open>Summaries\<close>

lemma nat_to_string_small: "n < 10 \<Longrightarrow> nat_to_string n = [''0123456789'' ! n]"
  by (simp add: nat_to_string.simps [of n])

lemma nat_to_string_big:
  "\<not> n < 10 \<Longrightarrow> nat_to_string n = nat_to_string (n div 10) @ [''0123456789'' ! (n mod 10)]"
  by (simp add: nat_to_string.simps [of n])

lemmas eval_format = formatCurrency_def toFixed2_def Let_def floor_rat_numeral
  nat_to_string_small nat_to_string_big round_double_numeral

lemma format_150: "formatCurrency h (Num (Fin 150)) = ''150.00''"
  by (simp add: eval_format)

lemma totalStep_fold:
  "foldl (totalStep p userId) s ts =
     foldl js_add s (map parsedAmount (filter (involves userId) ts))"
  by (induction ts arbitrary: s)
     (simp_all add: totalStep_def parsedAmount_def involves_def Let_def)

lemma empty_result:
  assumes "filterTransactions h txs userId p = Inr []"
  shows "processTransactionDataForAI h txs userId p =
           Inr \<lparr>result = Items [], unit = None, description = None,
                message = Some (emptyMessage h p)\<rparr>"
  using assms by (simp add: processTransactionDataForAI_def and_then_def)

lemma example_total:
  "processTransactionDataForAI example_host (TxArray example_transactions) (Str ''A1'') total_of_all =
   Inr \<lparr>result = Scalar (Num (Fin 150)), unit = Some ''currency'',
                description = Some ''Total amount'', message = None\<rparr>"
proof -
  have f: "filterTransactions example_host (TxArray example_transactions) (Str ''A1'') total_of_all
      = Inr example_transactions"
    by (rule example_unfiltered) (simp_all add: total_of_all_def no_filters_def)
  have ne: "example_transactions \<noteq> []" using example_length by auto
  have s: "summaryType total_of_all = Str ''total_amount''" by (simp add: total_of_all_def)
  show ?thesis
    by (simp add: processTransactionDataForAI_def f and_then_def ne s Let_def totalStep_fold
          example_involved example_parsed round_double_numeral)
qed

text \<open>
  The claim that the total is formatted to two decimal places fails: for the concrete
  request the result is the Number 150, not the string \<open>150.00\<close> that \<open>formatCurrency\<close>
  would make of it.
\<close>

theorem total_amount_not_formatted:
  "filterTransactions example_host (TxArray example_transactions) (Str ''A1'') total_of_all
     = Inr example_transactions
   \<and> example_transactions \<noteq> []
   \<and> summaryType total_of_all = Str ''total_amount''
   \<and> processTransactionDataForAI example_host (TxArray example_transactions) (Str ''A1'')
        total_of_all =
       Inr \<lparr>result = Scalar (Num (Fin 150)), unit = Some ''currency'',
            description = Some ''Total amount'', message = None\<rparr>
   \<and> formatCurrency example_host (Num (Fin 150)) = ''150.00''
   \<and> Scalar (Num (Fin 150)) \<noteq> Scalar (Str (formatCurrency example_host (Num (Fin 150))))"
proof -
  have f: "filterTransactions example_host (TxArray example_transactions) (Str ''A1'') total_of_all
      = Inr example_transactions"
    by (rule example_unfiltered) (simp_all add: total_of_all_def no_filters_def)
  have ne: "example_transactions \<noteq> []" using example_length by auto
  have s: "summaryType total_of_all = Str ''total_amount''"
    by (simp add: total_of_all_def)
  from f ne s example_total format_150 show ?thesis by simp
qed

text \<open>
  C2, amended. When the filtered set is not empty and \<open>summaryType\<close> is \<open>total_amount\<close>,
  the result is the sum, as a Number and unformatted, of the parsed amounts of the filtered
  transactions whose \<open>fromAccount\<close> or \<open>toAccount\<close> is the user, each at face value,
  with unit \<open>currency\<close> and description \<open>Total amount\<close>.
\<close>

theorem total_amount_is_raw_sum:
  assumes "filterTransactions h txs userId p = Inr filteredTx"
    and "filteredTx \<noteq> []"
    and "strict_eq (summaryType p) (Str ''total_amount'')"
  shows "processTransactionDataForAI h txs userId p =
           Inr \<lparr>result = Scalar (Num (js_sum (map parsedAmount
                                  (filter (involves userId) filteredTx)))),
                unit = Some ''currency'', description = Some ''Total amount'',
                message = None\<rparr>"
  using assms
  by (simp add: processTransactionDataForAI_def and_then_def Let_def strict_eq_Str
        totalStep_fold js_sum_def)

theorem total_amount_is_raw_sum_witness:
  "filterTransactions example_host (TxArray example_transactions) (Str ''A1'') total_of_all
     = Inr example_transactions
   \<and> example_transactions \<noteq> []
   \<and> strict_eq (summaryType total_of_all) (Str ''total_amount'')
   \<and> processTransactionDataForAI example_host (TxArray example_transactions) (Str ''A1'')
        total_of_all =
       Inr \<lparr>result = Scalar (Num (Fin 150)), unit = Some ''currency'',
            description = Some ''Total amount'', message = None\<rparr>"
proof -
  have f: "filterTransactions example_host (TxArray example_transactions) (Str ''A1'') total_of_all
      = Inr example_transactions"
    by (rule example_unfiltered) (simp_all add: total_of_all_def no_filters_def)
  have ne: "example_transactions \<noteq> []" using example_length by auto
  have s: "strict_eq (summaryType total_of_all) (Str ''total_amount'')"
    by (simp add: total_of_all_def)
  have v: "js_sum (map parsedAmount (filter (involves (Str ''A1'')) example_transactions)) = Fin 150"
    by (simp add: example_involved example_parsed js_sum_def round_double_numeral)
  from total_amount_is_raw_sum [OF f ne s] f ne s show ?thesis
    by (simp add: v)
qed

text \<open>
  The claim that the category message is preferred fails: with a category and a merchant
  both supplied and nothing left after filtering, the message names the merchant.
\<close>

theorem empty_message_prefers_merchant:
  "filterTransactions example_host (TxArray example_transactions) (Str ''A1'')
     category_and_merchant = Inr []
   \<and> truthy (params.category category_and_merchant)
   \<and> truthy (merchantName category_and_merchant)
   \<and> processTransactionDataForAI example_host (TxArray example_transactions) (Str ''A1'')
        category_and_merchant =
       Inr \<lparr>result = Items [], unit = None, description = None,
            message = Some (''No transactions found with '' @ [CHR 0x27] @ ''bob''
                            @ [CHR 0x27] @ ''.'')\<rparr>
   \<and> processTransactionDataForAI example_host (TxArray example_transactions) (Str ''A1'')
        category_and_merchant \<noteq>
       Inr \<lparr>result = Items [], unit = None, description = None,
            message = Some (''No transactions found in the '' @ [CHR 0x27] @ ''food''
                            @ [CHR 0x27] @ '' category.'')\<rparr>"
  using empty_result [OF example_merchant_filter, of example_host "Str ''A1''"]
    example_merchant_filter [of example_host "Str ''A1''"]
  by (simp add: emptyMessage_def category_and_merchant_def no_filters_def)

text \<open>
  C5, amended. When the filtered set is empty, the result is an empty list with a message:
  the date-range message when both dates are supplied, else the merchant message when a
  merchant is supplied, else the category message when a category is supplied, else the
  generic message. It is never the count 0.
\<close>

theorem empty_result_message:
  assumes "filterTransactions h txs userId p = Inr []"
  shows "processTransactionDataForAI h txs userId p =
           Inr \<lparr>result = Items [], unit = None, description = None,
                message = Some
                  (if truthy (startDate p) \<and> truthy (endDate p)
                   then ''No transactions found between '' @ to_string h (startDate p)
                        @ '' and '' @ to_string h (endDate p) @ ''.''
                   else if truthy (merchantName p)
                   then ''No transactions found with '' @ [CHR 0x27]
                        @ to_string h (merchantName p) @ [CHR 0x27] @ ''.''
                   else if truthy (params.category p)
                   then ''No transactions found in the '' @ [CHR 0x27]
                        @ to_string h (params.category p) @ [CHR 0x27] @ '' category.''
                   else ''No transactions found matching your criteria.'')\<rparr>
       \<and> processTransactionDataForAI h txs userId p \<noteq>
           Inr \<lparr>result = Scalar (Num (Fin 0)), unit = Some ''count'',
                description = Some ''Number of transactions'', message = None\<rparr>"
  using assms
  by (simp add: processTransactionDataForAI_def and_then_def emptyMessage_def)

theorem empty_result_message_witness:
  "filterTransactions example_host (TxArray example_transactions) (Str ''A1'')
     category_and_merchant = Inr []
   \<and> summaryType category_and_merchant = Str ''count''
   \<and> processTransactionDataForAI example_host (TxArray example_transactions) (Str ''A1'')
        category_and_merchant =
       Inr \<lparr>result = Items [], unit = None, description = None,
            message = Some (''No transactions found with '' @ [CHR 0x27] @ ''bob''
                            @ [CHR 0x27] @ ''.'')\<rparr>"
  using empty_result_message [OF example_merchant_filter, of example_host "Str ''A1''"]
    example_merchant_filter [of example_host "Str ''A1''"]
  by (simp add: category_and_merchant_def no_filters_def)

text \<open>
  C8. When the filtered set is not empty and \<open>summaryType\<close> is none of \<open>count\<close>,
  \<open>total_amount\<close> and \<open>list\<close>, the result is the one that the same call returns with
  \<open>summaryType\<close> set to \<open>list\<close>: the redacted entries and the message with their number.
\<close>

theorem unexpected_summaryType_is_list:
  assumes "filterTransactions h txs userId p = Inr filteredTx"
    and "filteredTx \<noteq> []"
    and "\<not> strict_eq (summaryType p) (Str ''count'')"
    and "\<not> strict_eq (summaryType p) (Str ''total_amount'')"
    and "\<not> strict_eq (summaryType p) (Str ''list'')"
  shows "processTransactionDataForAI h txs userId p =
           processTransactionDataForAI h txs userId (p\<lparr>summaryType := Str ''list''\<rparr>)
       \<and> processTransactionDataForAI h txs userId p =
           Inr \<lparr>result = Items (map formatTx filteredTx), unit = None, description = None,
                message = Some (''Found '' @ nat_to_string (length filteredTx)
                                @ '' matching transactions.'')\<rparr>"
  using assms
  by (simp add: processTransactionDataForAI_def filterTransactions_summaryType and_then_def
        Let_def)

theorem unexpected_summaryType_is_list_witness:
  "filterTransactions example_host (TxArray example_transactions) (Str ''A1'') summary_of_all
     = Inr example_transactions
   \<and> example_transactions \<noteq> []
   \<and> summaryType summary_of_all = Str ''summary''
   \<and> processTransactionDataForAI example_host (TxArray example_transactions) (Str ''A1'')
        summary_of_all =
       processTransactionDataForAI example_host (TxArray example_transactions) (Str ''A1'')
        (summary_of_all\<lparr>summaryType := Str ''list''\<rparr>)
   \<and> processTransactionDataForAI example_host (TxArray example_transactions) (Str ''A1'')
        summary_of_all =
       Inr \<lparr>result = Items (map formatTx example_transactions), unit = None,
            description = None, message = Some ''Found 2 matching transactions.''\<rparr>"
proof -
  have f: "filterTransactions example_host (TxArray example_transactions) (Str ''A1'') summary_of_all
      = Inr example_transactions"
    by (rule example_unfiltered) (simp_all add: summary_of_all_def no_filters_def)
  have ne: "example_transactions \<noteq> []" using example_length by auto
  have s: "summaryType summary_of_all = Str ''summary''"
    by (simp add: summary_of_all_def)
  have n: "\<not> strict_eq (summaryType summary_of_all) (Str ''count'')"
    "\<not> strict_eq (summaryType summary_of_all) (Str ''total_amount'')"
    "\<not> strict_eq (summaryType summary_of_all) (Str ''list'')"
    by (simp_all add: s)
  note t = unexpected_summaryType_is_list [OF f ne n]
  have m: "''Found '' @ nat_to_string (length example_transactions) @ '' matching transactions.''
      = ''Found 2 matching transactions.''"
    by (simp add: example_length nat_to_string_small)
  from t have e1: "processTransactionDataForAI example_host (TxArray example_transactions)
        (Str ''A1'') summary_of_all =
       processTransactionDataForAI example_host (TxArray example_transactions) (Str ''A1'')
        (summary_of_all\<lparr>summaryType := Str ''list''\<rparr>)"
    by (rule conjunct1)
  from t have e2: "processTransactionDataForAI example_host (TxArray example_transactions)
        (Str ''A1'') summary_of_all =
       Inr \<lparr>result = Items (map formatTx example_transactions), unit = None,
            description = None, message = Some ''Found 2 matching transactions.''\<rparr>"
    unfolding m by (rule conjunct2)
  from f ne s e1 e2 show ?thesis by (intro conjI)
qed

subsection \<open>Currency formatting\<close>

lemma below_ten: "d < 10 \<Longrightarrow> d \<in> {0, 1, 2, 3, 4, 5, 6, 7, 8, 9::nat}"
  by auto

lemma digit_char:
  assumes "d < 10"
  shows "is_digit (''0123456789'' ! d)" and "digit_val (''0123456789'' ! d) = d"
  using below_ten [OF assms] by (auto simp: is_digit_def digit_val_def)

lemma digits_val_snoc: "digits_val (ds @ [c]) = 10 * digits_val ds + digit_val c"
  by (simp add: digits_val_def)

lemma digits_val_append:
  "digits_val (a @ b) = digits_val a * 10 ^ length b + digits_val b"
proof (induction b rule: rev_induct)
  case Nil
  show ?case by (simp add: digits_val_def)
next
  case (snoc c b)
  have "digits_val (a @ b @ [c]) = 10 * digits_val (a @ b) + digit_val c"
    using digits_val_snoc [of "a @ b" c] by simp
  with snoc show ?case by (simp add: digits_val_snoc algebra_simps)
qed

lemma digit_val_zero: "digit_val (CHR ''0'') = 0"
  by (simp add: digit_val_def)

lemma digits_val_zeros: "digits_val (replicate k (CHR ''0'')) = 0"
proof (induction k)
  case 0
  show ?case by (simp add: digits_val_def)
next
  case (Suc k)
  have "replicate (Suc k) (CHR ''0'') = replicate k (CHR ''0'') @ [CHR ''0'']"
    by (simp add: replicate_append_same)
  with Suc show ?case
    by (simp only: digits_val_snoc digit_val_zero)
qed

lemma nat_to_string_digits:
  "list_all is_digit (nat_to_string n) \<and> nat_to_string n \<noteq> [] \<and> digits_val (nat_to_string n) = n"
proof (induction n rule: nat_to_string.induct)
  case (1 n)
  show ?case
  proof (cases "n < 10")
    case True
    then show ?thesis
      by (simp add: nat_to_string_small digit_char digits_val_def)
  next
    case False
    have "n mod 10 < 10" by simp
    with 1 [OF False] False show ?thesis
      by (simp add: nat_to_string_big digit_char digits_val_snoc)
  qed
qed

lemma digit_not_special:
  assumes "is_digit c"
  shows "\<not> is_ws c" and "c \<noteq> CHR ''-''" and "c \<noteq> CHR ''+''" and "c \<noteq> CHR ''I''"
    and "c \<noteq> CHR ''.''"
  using assms by (auto simp: is_digit_def is_ws_def)

lemma not_digit_point: "\<not> is_digit (CHR ''.'')"
  by (simp add: is_digit_def)

lemma takeWhile_digits:
  assumes "list_all is_digit ds"
  shows "takeWhile is_digit (ds @ CHR ''.'' # r) = ds"
    and "dropWhile is_digit (ds @ CHR ''.'' # r) = CHR ''.'' # r"
    and "takeWhile is_digit ds = ds" and "dropWhile is_digit ds = []"
  using assms by (induction ds) (simp_all add: not_digit_point)

lemma literal_value_decimal:
  assumes "ip \<noteq> []" and "list_all is_digit ip" and "list_all is_digit fp"
  shows "literal_value ((if neg then ''-'' else []) @ ip @ CHR ''.'' # fp) =
         DecimalLiteral ((if neg then - 1 else 1) *
              (of_nat (digits_val ip) + of_nat (digits_val fp) / 10 ^ length fp))"
proof -
  from assms(1) obtain c cs where ip: "ip = c # cs" by (cases ip) auto
  with assms(2) have c: "is_digit c" by simp
  note sp = digit_not_special [OF c]
  let ?s2 = "ip @ CHR ''.'' # fp"
  have sign: "take_sign (dropWhile is_ws ((if neg then ''-'' else []) @ ?s2)) = (neg, ?s2)"
    using sp by (simp add: ip is_ws_def)
  have inf: "\<not> prefix ''Infinity'' ?s2"
    using sp by (simp add: ip)
  show ?thesis
    unfolding literal_value_def sign
    using inf assms(1)
    by (simp add: takeWhile_digits [OF assms(2)] takeWhile_digits(3,4) [OF assms(3)])
qed

lemma two_decimals_decimal:
  assumes "ip \<noteq> []" and "list_all is_digit ip" and "list_all is_digit fp" and "length fp = 2"
  shows "two_decimals ((if neg then ''-'' else []) @ ip @ CHR ''.'' # fp)"
proof -
  from assms(1) obtain c cs where ip: "ip = c # cs" by (cases ip) auto
  with assms(2) have c: "is_digit c" by simp
  note sp = digit_not_special [OF c]
  have body: "(case (if neg then ''-'' else []) @ ip @ CHR ''.'' # fp of [] \<Rightarrow> []
      | c # r \<Rightarrow> if c = CHR ''-'' then r else (if neg then ''-'' else []) @ ip @ CHR ''.'' # fp)
      = ip @ CHR ''.'' # fp"
    using sp by (simp add: ip)
  show ?thesis
    unfolding two_decimals_def body
    using assms by (simp add: takeWhile_digits [OF assms(2)])
qed

lemma is_digit_zero: "is_digit (CHR ''0'')"
  by (simp add: is_digit_def)

lemma padded_digits:
  fixes n :: nat
  defines "m \<equiv> nat_to_string n"
  defines "m' \<equiv> (if length m \<le> 2 then replicate (3 - length m) (CHR ''0'') @ m else m)"
  shows "list_all is_digit m'" and "3 \<le> length m'" and "digits_val m' = n"
proof -
  note d = nat_to_string_digits [of n, folded m_def]
  show "list_all is_digit m'"
    using d by (simp add: m'_def list_all_iff is_digit_zero)
  show "3 \<le> length m'"
    by (simp add: m'_def)
  show "digits_val m' = n"
    using d by (simp add: m'_def digits_val_append digits_val_zeros)
qed

lemma toFixed2_shape:
  assumes "\<bar>r\<bar> < 10 ^ 21"
  shows "\<exists>ip fp. toFixed2 h (Fin r) = (if r < 0 then ''-'' else []) @ ip @ CHR ''.'' # fp
           \<and> ip \<noteq> [] \<and> list_all is_digit ip \<and> list_all is_digit fp \<and> length fp = 2
           \<and> digits_val ip * 100 + digits_val fp = nat \<lfloor>\<bar>r\<bar> * 100 + 1 / 2\<rfloor>"
proof -
  define n where "n = nat \<lfloor>\<bar>r\<bar> * 100 + 1 / 2\<rfloor>"
  define m where "m = nat_to_string n"
  define m' where "m' = (if length m \<le> 2 then replicate (3 - length m) (CHR ''0'') @ m else m)"
  define ip where "ip = take (length m' - 2) m'"
  define fp where "fp = drop (length m' - 2) m'"
  note p = padded_digits [of n, folded m_def, folded m'_def]
  have split: "m' = ip @ fp" by (simp add: ip_def fp_def)
  have lf: "length fp = 2" using p(2) by (simp add: fp_def)
  have li: "ip \<noteq> []" using p(2) by (auto simp: ip_def)
  from p(1) have di: "list_all is_digit ip" and df: "list_all is_digit fp"
    unfolding split by simp_all
  from p(3) have v: "digits_val ip * 100 + digits_val fp = n"
    unfolding split by (simp add: digits_val_append lf)
  have "toFixed2 h (Fin r) = (if r < 0 then ''-'' else []) @ ip @ CHR ''.'' # fp"
    unfolding toFixed2_def jsnum.case Let_def
    unfolding n_def [symmetric]
    unfolding m_def [symmetric]
    unfolding m'_def [symmetric]
    unfolding ip_def [symmetric] fp_def [symmetric]
    using assms by simp
  with li di df lf v show ?thesis unfolding n_def by blast
qed

lemma hundredths_mono:
  assumes xy: "x \<le> y"
  shows "hundredths x \<le> hundredths y"
proof -
  define fx where "fx = \<lfloor>\<bar>x\<bar> * 100 + 1 / 2\<rfloor>"
  define fy where "fy = \<lfloor>\<bar>y\<bar> * 100 + 1 / 2\<rfloor>"
  have hx: "hundredths x = (if x < 0 then - fx else fx)"
    and hy: "hundredths y = (if y < 0 then - fy else fy)"
    unfolding hundredths_def fx_def fy_def by (rule refl)+
  have nx: "0 \<le> fx" and ny: "0 \<le> fy"
    unfolding fx_def fy_def by simp_all
  have both_neg: "fy \<le> fx" if "x < 0" and "y < 0"
  proof -
    from that xy have "\<bar>y\<bar> * 100 + 1 / 2 \<le> \<bar>x\<bar> * 100 + 1 / 2" by simp
    then show ?thesis unfolding fx_def fy_def by (rule floor_mono)
  qed
  have both_pos: "fx \<le> fy" if "\<not> x < 0" and "\<not> y < 0"
  proof -
    from that xy have "\<bar>x\<bar> * 100 + 1 / 2 \<le> \<bar>y\<bar> * 100 + 1 / 2" by simp
    then show ?thesis unfolding fx_def fy_def by (rule floor_mono)
  qed
  from xy have "\<not> (\<not> x < 0 \<and> y < 0)" by linarith
  with nx ny both_neg both_pos show ?thesis
    unfolding hx hy by (cases "x < 0"; cases "y < 0") simp_all
qed

lemma toFixed2_value:
  assumes "\<bar>r\<bar> < 10 ^ 21"
  shows "two_decimals (toFixed2 h (Fin r))"
    and "literal_value (toFixed2 h (Fin r)) = DecimalLiteral (of_int (hundredths r) / 100)"
proof -
  from toFixed2_shape [OF assms, of h] obtain ip fp where
    s: "toFixed2 h (Fin r) = (if r < 0 then ''-'' else []) @ ip @ CHR ''.'' # fp"
    and li: "ip \<noteq> []" and di: "list_all is_digit ip" and df: "list_all is_digit fp"
    and lf: "length fp = 2"
    and v: "digits_val ip * 100 + digits_val fp = nat \<lfloor>\<bar>r\<bar> * 100 + 1 / 2\<rfloor>"
    by blast
  show "two_decimals (toFixed2 h (Fin r))"
    unfolding s by (rule two_decimals_decimal [OF li di df lf])
  have nn: "0 \<le> \<lfloor>\<bar>r\<bar> * 100 + 1 / 2\<rfloor>" by simp
  have "(of_nat (digits_val ip) + of_nat (digits_val fp) / 10 ^ length fp :: rat)
      = of_nat (digits_val ip * 100 + digits_val fp) / 100"
    by (simp add: lf field_simps)
  also have "\<dots> = of_int \<lfloor>\<bar>r\<bar> * 100 + 1 / 2\<rfloor> / 100"
    unfolding v using nn by simp
  finally have e: "(of_nat (digits_val ip) + of_nat (digits_val fp) / 10 ^ length fp :: rat)
      = of_int \<lfloor>\<bar>r\<bar> * 100 + 1 / 2\<rfloor> / 100" .
  show "literal_value (toFixed2 h (Fin r)) = DecimalLiteral (of_int (hundredths r) / 100)"
    unfolding s literal_value_decimal [OF li di df] e
    by (simp add: hundredths_def)
qed

lemma formatCurrency_finite:
  assumes "parseFloat a = Fin x"
  shows "formatCurrency h a = toFixed2 h (Fin x)"
  using assms by (simp add: formatCurrency_def)

lemma parseFloat_abc: "parseFloat (Str ''abc'') = NaN"
  by (simp add: parseFloat_string_def literal_value_def is_ws_def is_digit_def)

lemma parseFloat_Infinity: "parseFloat (Str ''Infinity'') = PosInf"
  by (simp add: parseFloat_string_def literal_value_def is_ws_def)

lemma format_9_10:
  "formatCurrency h (Num (Fin 9)) = ''9.00''" "formatCurrency h (Num (Fin 10)) = ''10.00''"
  by (simp_all add: eval_format)

lemma format_5: "formatCurrency h (Num (Fin 5)) = ''5.00''"
  by (simp add: eval_format)

text \<open>
  The claim fails in two ways. Not every result has two decimal digits: the string
  \<open>Infinity\<close> parses to a Number that is not NaN and prints as \<open>Infinity\<close>. And the
  results are not ordered as the inputs are: 9 is below 10, and the string \<open>9.00\<close> is
  above the string \<open>10.00\<close>.
\<close>

theorem formatCurrency_not_order_preserving:
  "formatCurrency example_host (Str ''Infinity'') = ''Infinity''
   \<and> \<not> two_decimals (formatCurrency example_host (Str ''Infinity''))
   \<and> (9::rat) \<le> 10
   \<and> formatCurrency example_host (Num (Fin 9)) = ''9.00''
   \<and> formatCurrency example_host (Num (Fin 10)) = ''10.00''
   \<and> \<not> formatCurrency example_host (Num (Fin 9)) \<le> formatCurrency example_host (Num (Fin 10))"
proof -
  have i: "formatCurrency example_host (Str ''Infinity'') = ''Infinity''"
    by (simp add: formatCurrency_def parseFloat_Infinity [simplified] toFixed2_def)
  have t: "\<not> two_decimals ''Infinity''"
    by (simp add: two_decimals_def is_digit_def)
  have o: "\<not> ''9.00'' \<le> ''10.00''" by simp
  from i t o show ?thesis by (simp add: format_9_10)
qed

text \<open>
  C7, amended. For an input that parses to a finite Number of magnitude below \<open>10^21\<close>,
  \<open>formatCurrency\<close> renders exactly two decimal digits, and its result reads back as the
  input rounded to hundredths; an input that parses to NaN renders as \<open>0.00\<close>; so for two
  such finite inputs \<open>a \<le> b\<close> the Number that the result for \<open>a\<close> denotes is at most
  the Number that the result for \<open>b\<close> denotes. \<open>formatCurrency 5 = "5.00"\<close> and
  \<open>formatCurrency "abc" = "0.00"\<close>.
\<close>

theorem formatCurrency_two_decimals_monotone:
  "(\<forall>a x. parseFloat a = Fin x \<and> \<bar>x\<bar> < 10 ^ 21 \<longrightarrow>
       two_decimals (formatCurrency h a)
       \<and> literal_value (formatCurrency h a) = DecimalLiteral (of_int (hundredths x) / 100))
   \<and> (\<forall>a. parseFloat a = NaN \<longrightarrow> formatCurrency h a = ''0.00'')
   \<and> two_decimals ''0.00''
   \<and> (\<forall>a b x y. parseFloat a = Fin x \<and> parseFloat b = Fin y
         \<and> \<bar>x\<bar> < 10 ^ 21 \<and> \<bar>y\<bar> < 10 ^ 21 \<and> x \<le> y \<longrightarrow>
       (\<exists>u v. literal_value (formatCurrency h a) = DecimalLiteral u
            \<and> literal_value (formatCurrency h b) = DecimalLiteral v \<and> u \<le> v))
   \<and> formatCurrency h (Num (Fin 5)) = ''5.00''
   \<and> formatCurrency h (Str ''abc'') = ''0.00''"
proof -
  have fin: "two_decimals (formatCurrency h a)
       \<and> literal_value (formatCurrency h a) = DecimalLiteral (of_int (hundredths x) / 100)"
    if "parseFloat a = Fin x \<and> \<bar>x\<bar> < 10 ^ 21" for a x
    using that toFixed2_value [of x h] by (simp add: formatCurrency_finite)
  have nan: "formatCurrency h a = ''0.00''" if "parseFloat a = NaN" for a
    using that by (simp add: formatCurrency_def)
  have zero: "two_decimals ''0.00''"
    by (simp add: two_decimals_def is_digit_def)
  have mono: "\<exists>u v. literal_value (formatCurrency h a) = DecimalLiteral u
            \<and> literal_value (formatCurrency h b) = DecimalLiteral v \<and> u \<le> v"
    if "parseFloat a = Fin x \<and> parseFloat b = Fin y
         \<and> \<bar>x\<bar> < 10 ^ 21 \<and> \<bar>y\<bar> < 10 ^ 21 \<and> x \<le> y" for a b x y
  proof -
    from that have "hundredths x \<le> hundredths y" by (simp add: hundredths_mono)
    then have "(of_int (hundredths x) / 100 :: rat) \<le> of_int (hundredths y) / 100"
      by simp
    with fin [of a x] fin [of b y] that show ?thesis by blast
  qed
  from fin nan zero mono format_5 [of h] nan [OF parseFloat_abc] show ?thesis by blast
qed

theorem formatCurrency_two_decimals_monotone_witness:
  "parseFloat (Num (Fin 9)) = Fin 9 \<and> parseFloat (Num (Fin 10)) = Fin 10
   \<and> \<bar>9::rat\<bar> < 10 ^ 21 \<and> \<bar>10::rat\<bar> < 10 ^ 21 \<and> (9::rat) \<le> 10
   \<and> two_decimals (formatCurrency example_host (Num (Fin 9)))
   \<and> literal_value (formatCurrency example_host (Num (Fin 9))) = DecimalLiteral 9
   \<and> literal_value (formatCurrency example_host (Num (Fin 10))) = DecimalLiteral 10
   \<and> parseFloat (Str ''abc'') = NaN
   \<and> formatCurrency example_host (Str ''abc'') = ''0.00''"
proof -
  note t = formatCurrency_two_decimals_monotone [of example_host]
  have a: "parseFloat (Num (Fin 9)) = Fin 9 \<and> \<bar>9::rat\<bar> < 10 ^ 21"
    and b: "parseFloat (Num (Fin 10)) = Fin 10 \<and> \<bar>10::rat\<bar> < 10 ^ 21"
    by (simp_all add: round_double_numeral)
  have h9: "hundredths 9 = 900" and h10: "hundredths 10 = 1000"
    by (simp_all add: hundredths_def floor_rat_numeral)
  from t a have "two_decimals (formatCurrency example_host (Num (Fin 9)))
       \<and> literal_value (formatCurrency example_host (Num (Fin 9))) =
           DecimalLiteral (of_int (hundredths 9) / 100)"
    by blast
  then have r9: "two_decimals (formatCurrency example_host (Num (Fin 9)))
       \<and> literal_value (formatCurrency example_host (Num (Fin 9))) = DecimalLiteral 9"
    by (simp add: h9)
  from t b have "literal_value (formatCurrency example_host (Num (Fin 10))) =
           DecimalLiteral (of_int (hundredths 10) / 100)"
    by blast
  then have r10: "literal_value (formatCurrency example_host (Num (Fin 10))) = DecimalLiteral 10"
    by (simp add: h10)
  from t parseFloat_abc have n: "formatCurrency example_host (Str ''abc'') = ''0.00''"
    by blast
  from a b r9 r10 n parseFloat_abc show ?thesis by simp
qed

subsection \<open>The arithmetic and the strings at known values\<close>

text \<open>
  What the definitions give where exact arithmetic and one-byte text would differ from the
  language: 0.1 and 0.2 read as the nearest doubles and add to 0.30000000000000004; adding
  1 to \<open>2^53\<close> changes nothing; 1.005 reads as a double below it and prints as 1.00;
  twenty-one nines read as \<open>10^21\<close>, which prints as the host prints it; \<^verbatim>\<open>1e400\<close> reads
  as an infinity; a leading no-break space is skipped; and U+00C9 is lower-cased to U+00E9.
\<close>

lemmas eval_literal = parseFloat_string_def literal_value_def is_ws_def is_digit_def
  digits_val_def digit_val_def

lemma literal_tenth: "literal_value ''0.1'' = DecimalLiteral (1 / 10)"
  and literal_fifth: "literal_value ''0.2'' = DecimalLiteral (2 / 10)"
  and literal_1005: "literal_value ''1.005'' = DecimalLiteral (201 / 200)"
  and literal_nines: "literal_value ''999999999999999999999'' = DecimalLiteral (10 ^ 21 - 1)"
  and literal_nbsp: "literal_value [CHR 0xA0, CHR ''5''] = DecimalLiteral 5"
  by (simp_all add: eval_literal)

lemma parseFloat_tenth:
  "parseFloat_string ''0.1'' = Fin (3602879701896397 / 36028797018963968)"
  "parseFloat (Num (Fin (1 / 10))) = Fin (3602879701896397 / 36028797018963968)"
  using round_double_tenth by (simp_all add: parseFloat_string_def literal_tenth)

lemma parseFloat_fifth:
  "parseFloat_string ''0.2'' = Fin (3602879701896397 / 18014398509481984)"
  "parseFloat (Num (Fin (2 / 10))) = Fin (3602879701896397 / 18014398509481984)"
  using round_double_fifth by (simp_all add: parseFloat_string_def literal_fifth)

lemma tenth_plus_fifth:
  "js_sum [Fin (3602879701896397 / 36028797018963968),
           Fin (3602879701896397 / 18014398509481984)] =
     Fin (1351079888211149 / 4503599627370496)"
proof -
  have d: "round_double (3602879701896397 / 36028797018963968) =
      Fin (3602879701896397 / 36028797018963968)"
    using round_double_is_double [OF round_double_tenth] by (simp add: is_double_def)
  show ?thesis
    using round_double_tenth_plus_fifth by (simp add: js_sum_def d)
qed

lemma sum_of_tenth_and_fifth:
  "js_sum [parseFloat (Str ''0.1''), parseFloat (Str ''0.2'')] =
     Fin (1351079888211149 / 4503599627370496)"
  "js_sum [parseFloat (Num (Fin (1 / 10))), parseFloat (Num (Fin (2 / 10)))] =
     Fin (1351079888211149 / 4503599627370496)"
  using tenth_plus_fifth parseFloat_tenth(2) parseFloat_fifth(2)
  by (simp_all add: parseFloat_tenth(1) parseFloat_fifth(1))

lemma add_at_2_53: "js_add (Fin (2 ^ 53)) (Fin 1) = Fin (2 ^ 53)"
  using round_double_tie by simp

lemma formatCurrency_1005: "formatCurrency h (Str ''1.005'') = ''1.00''"
  using round_double_1005
  by (simp add: parseFloat_string_def literal_1005 formatCurrency_def toFixed2_def Let_def
        floor_rat_numeral nat_to_string_small nat_to_string_big)

lemma parseFloat_nines: "parseFloat (Str ''999999999999999999999'') = Fin (10 ^ 21)"
  by (simp add: parseFloat_string_def literal_nines) (simp add: eval_round)

lemma formatCurrency_nines:
  "formatCurrency h (Str ''999999999999999999999'') = numberToString h (Fin (10 ^ 21))"
  using parseFloat_nines by (simp add: formatCurrency_def toFixed2_def)

lemma formatCurrency_nbsp: "formatCurrency h (Str [CHR 0xA0, CHR ''5'']) = ''5.00''"
  by (simp add: parseFloat_string_def literal_nbsp eval_format)

lemma lower_string_latin1:
  "lower_string [CHR ''J'', CHR ''O'', CHR ''S'', CHR 0xC9] =
     [CHR ''j'', CHR ''o'', CHR ''s'', CHR 0xE9]"
  by (simp add: lower_string_def lower_char_def upper_letters_def lower_letters_def)

lemma differs_latin1:
  "differs (Str [CHR ''J'', CHR ''O'', CHR ''S'', CHR 0xC9])
           (Str [CHR ''j'', CHR ''o'', CHR ''s'', CHR 0xE9]) = Inr False"
  by (simp add: differs_def toLowerCase_def and_then_def lower_string_def lower_char_def
        upper_letters_def lower_letters_def)

lemma parseFloat_1e400: "parseFloat (Str ''1e400'') = PosInf"
proof -
  have "literal_value ''1e400'' = DecimalLiteral (10 ^ 400)"
    by (simp add: eval_literal)
  moreover have "(2::rat) ^ 1024 \<le> \<bar>10 ^ 400\<bar>" by simp
  ultimately show ?thesis
    by (simp add: parseFloat_string_def round_double_overflow)
qed

end
